theory Spec2Isabelle
  imports Complex_Main
begin

section \<open>Data model\<close>

text \<open>
  The notebook \<^verbatim>\<open>simulated_annealing.ipynb\<close> works on Python values: node indices and
  all parameters drawn by \<^verbatim>\<open>generate_vrptw_parameters\<close> are unbounded integers, the
  parameter tables are dictionaries, a route is a list of nodes and a solution a list of
  routes. A dictionary is an association list read with \<open>map_of\<close> (the first binding of a
  key counts); \<^verbatim>\<open>len(d)\<close> is the number of distinct keys. A failing dictionary lookup,
  list index or library call raises; the model returns the exception as a value.
\<close>

datatype error = KeyError | IndexError | ValueError | OverflowError | ZeroDivisionError

type_synonym ('k, 'v) dict = "('k \<times> 'v) list"

definition lookup :: "('k, 'v) dict \<Rightarrow> 'k \<Rightarrow> 'v option" where
  "lookup d k = map_of d k"

definition dict_len :: "('k, 'v) dict \<Rightarrow> int" where
  "dict_len d = int (length (remdups (map fst d)))"

type_synonym route = "int list"
type_synonym routes = "route list"

text \<open>
  The value \<^verbatim>\<open>calculate_cost\<close> returns: the integer total, or \<^verbatim>\<open>float('inf')\<close>.
\<close>

datatype cost = Finite int | Infinity

fun cost_less :: "cost \<Rightarrow> cost \<Rightarrow> bool" where
  "cost_less (Finite x) (Finite y) = (x < y)"
| "cost_less (Finite x) Infinity = True"
| "cost_less Infinity c = False"

definition cost_le :: "cost \<Rightarrow> cost \<Rightarrow> bool" where
  "cost_le c d = (c = d \<or> cost_less c d)"

text \<open>The parameters the functions of the notebook receive (\<^verbatim>\<open>K\<close> is never read).\<close>

record parameters =
  cij :: "(int \<times> int, int) dict"
  tij :: "(int \<times> int, int) dict"
  di :: "(int, int) dict"
  q :: int
  a :: "(int, int) dict"
  b :: "(int, int) dict"

section \<open>Feasibility evaluator: \<^verbatim>\<open>is_feasible\<close>\<close>

text \<open>
  The set \<^verbatim>\<open>customers_visited\<close>: every node of every route that is neither \<open>0\<close> nor
  \<^verbatim>\<open>len(b) - 1\<close>.
\<close>

definition customers_visited :: "parameters \<Rightarrow> routes \<Rightarrow> int set" where
  "customers_visited inst rs =
     set (filter (\<lambda>i. i \<noteq> 0 \<and> i \<noteq> dict_len (b inst) - 1) (concat rs))"

text \<open>
  The inner loop \<^verbatim>\<open>for idx in range(len(route) - 1)\<close> over the consecutive pairs
  \<open>(i, j)\<close> of one route, with the running \<^verbatim>\<open>load\<close> and \<^verbatim>\<open>arrival_time\<close>.
  \<open>Inr False\<close> is the early \<^verbatim>\<open>return False\<close>, \<open>Inr True\<close> the loop falling through.
  The capacity test comes before the time lookups, as in the source.
\<close>

fun feasible_route :: "parameters \<Rightarrow> int \<Rightarrow> int \<Rightarrow> route \<Rightarrow> error + bool" where
  "feasible_route inst load arrival_time (i # j # rest) =
     (let load' = (case lookup (di inst) j of None \<Rightarrow> load | Some d \<Rightarrow> load + d) in
      if lookup (di inst) j \<noteq> None \<and> load' > q inst then Inr False
      else (case lookup (tij inst) (i, j) of None \<Rightarrow> Inl KeyError | Some t \<Rightarrow>
            (case lookup (a inst) j of None \<Rightarrow> Inl KeyError | Some aj \<Rightarrow>
             (let arrival_time' = max (arrival_time + t) aj in
              (case lookup (b inst) j of None \<Rightarrow> Inl KeyError | Some bj \<Rightarrow>
                 if arrival_time' > bj then Inr False
                 else feasible_route inst load' arrival_time' (j # rest))))))"
| "feasible_route inst load arrival_time rt = Inr True"

text \<open>
  The outer loop \<^verbatim>\<open>for k, route in enumerate(routes)\<close>: the traversal from load \<open>0\<close> and
  arrival time \<open>0\<close>, then the endpoint test; \<^verbatim>\<open>route[0]\<close> raises on an empty route.
\<close>

fun feasible_routes_loop :: "parameters \<Rightarrow> routes \<Rightarrow> error + bool" where
  "feasible_routes_loop inst [] = Inr True"
| "feasible_routes_loop inst (rt # rs) =
     (case feasible_route inst 0 0 rt of
        Inl e \<Rightarrow> Inl e
      | Inr False \<Rightarrow> Inr False
      | Inr True \<Rightarrow>
          if rt = [] then Inl IndexError
          else if hd rt \<noteq> 0 \<or> last rt \<noteq> dict_len (b inst) - 1 then Inr False
          else feasible_routes_loop inst rs)"

definition is_feasible :: "parameters \<Rightarrow> routes \<Rightarrow> error + bool" where
  "is_feasible inst rs =
     (if int (card (customers_visited inst rs)) \<noteq> dict_len (di inst) then Inr False
      else feasible_routes_loop inst rs)"

section \<open>Cost evaluator: \<^verbatim>\<open>calculate_cost\<close>\<close>

text \<open>
  The arc ledger \<^verbatim>\<open>x\<close> is a local dictionary that is only written and then dropped; it is
  left out. The inner loop carries \<^verbatim>\<open>total_cost\<close>, \<^verbatim>\<open>load\<close> and \<^verbatim>\<open>arrival_time\<close>;
  \<open>Inr Infinity\<close> is the early \<^verbatim>\<open>return float('inf')\<close>, \<open>Inr (Finite t)\<close> the loop
  falling through with total \<open>t\<close>. Here the cost is added and the time window tested
  before the capacity.
\<close>

fun cost_route :: "parameters \<Rightarrow> int \<Rightarrow> int \<Rightarrow> int \<Rightarrow> route \<Rightarrow> error + cost" where
  "cost_route inst total_cost load arrival_time (i # j # rest) =
     (case lookup (cij inst) (i, j) of None \<Rightarrow> Inl KeyError | Some c \<Rightarrow>
      (let total_cost' = total_cost + c in
       (case lookup (tij inst) (i, j) of None \<Rightarrow> Inl KeyError | Some t \<Rightarrow>
        (case lookup (a inst) j of None \<Rightarrow> Inl KeyError | Some aj \<Rightarrow>
         (let arrival_time' = max (arrival_time + t) aj in
          (case lookup (b inst) j of None \<Rightarrow> Inl KeyError | Some bj \<Rightarrow>
             if arrival_time' > bj then Inr Infinity
             else (let load' = (case lookup (di inst) j of None \<Rightarrow> load | Some d \<Rightarrow> load + d) in
                   if lookup (di inst) j \<noteq> None \<and> load' > q inst then Inr Infinity
                   else cost_route inst total_cost' load' arrival_time' (j # rest))))))))"
| "cost_route inst total_cost load arrival_time rt = Inr (Finite total_cost)"

fun cost_routes_loop :: "parameters \<Rightarrow> int \<Rightarrow> routes \<Rightarrow> error + cost" where
  "cost_routes_loop inst total_cost [] = Inr (Finite total_cost)"
| "cost_routes_loop inst total_cost (rt # rs) =
     (case cost_route inst total_cost 0 0 rt of
        Inl e \<Rightarrow> Inl e
      | Inr Infinity \<Rightarrow> Inr Infinity
      | Inr (Finite t) \<Rightarrow> cost_routes_loop inst t rs)"

definition calculate_cost :: "parameters \<Rightarrow> routes \<Rightarrow> error + cost" where
  "calculate_cost inst rs = cost_routes_loop inst 0 rs"

section \<open>The instance and the test solutions of the notebook\<close>

text \<open>The parameters printed by the notebook for \<^verbatim>\<open>seed=30\<close>, three customers, two vehicles.\<close>

definition example_cij :: "(int \<times> int, int) dict" where
  "example_cij =
     [((0, 1), 44), ((0, 2), 28), ((0, 3), 49), ((0, 4), 11),
      ((1, 0), 49), ((1, 2), 23), ((1, 3), 26), ((1, 4), 13),
      ((2, 0), 35), ((2, 1), 34), ((2, 3), 18), ((2, 4), 15),
      ((3, 0), 39), ((3, 1), 10), ((3, 2), 43), ((3, 4), 25),
      ((4, 0), 11), ((4, 1), 14), ((4, 2), 20), ((4, 3), 48)]"

definition example_tij :: "(int \<times> int, int) dict" where
  "example_tij =
     [((0, 1), 21), ((0, 2), 17), ((0, 3), 25), ((0, 4), 16),
      ((1, 0), 22), ((1, 2), 7), ((1, 3), 17), ((1, 4), 5),
      ((2, 0), 12), ((2, 1), 30), ((2, 3), 23), ((2, 4), 26),
      ((3, 0), 13), ((3, 1), 29), ((3, 2), 18), ((3, 4), 23),
      ((4, 0), 8), ((4, 1), 26), ((4, 2), 13), ((4, 3), 25)]"

definition example_di :: "(int, int) dict" where
  "example_di = [(1, 13), (2, 6), (3, 14)]"

definition example_a :: "(int, int) dict" where
  "example_a = [(0, 0), (1, 39), (2, 16), (3, 39), (4, 0)]"

definition example_b :: "(int, int) dict" where
  "example_b = [(0, 100), (1, 72), (2, 27), (3, 48), (4, 100)]"

definition example_instance :: parameters where
  "example_instance =
     \<lparr>cij = example_cij, tij = example_tij, di = example_di, q = 20,
      a = example_a, b = example_b\<rparr>"

definition exact_routes :: routes where
  "exact_routes = [[0, 1, 4], [0, 2, 3, 4]]"

definition infeasible_routes :: routes where
  "infeasible_routes = [[0, 1, 4], [0, 2, 3]]"

definition feasible_routes :: routes where
  "feasible_routes = [[0, 3, 4], [0, 2, 1, 4]]"

section \<open>The pseudo-random source\<close>

text \<open>
  The notebook draws from Python's \<^verbatim>\<open>random\<close> module, which is not part of the
  repository. Its hidden state is passed explicitly: a generator is the sequence of raw
  outputs still to come, and each library call reduces raw outputs into the range it was
  asked for. Every result the library may return is produced by some sequence, and no
  sequence produces a result the library cannot return.
\<close>

type_synonym rng = "nat \<Rightarrow> nat"

definition rng_next :: "rng \<Rightarrow> nat \<times> rng" where
  "rng_next g = (g 0, \<lambda>n. g (Suc n))"

text \<open>
  \<^verbatim>\<open>random.sample(range(n), 2)\<close>: two distinct indices below \<open>n\<close>, in either order;
  \<^verbatim>\<open>ValueError\<close> when the population has fewer than two elements.
\<close>

definition random_sample2 :: "nat \<Rightarrow> rng \<Rightarrow> error + ((nat \<times> nat) \<times> rng)" where
  "random_sample2 n g =
     (if n < 2 then Inl ValueError
      else (let (r1, g1) = rng_next g;
                (r2, g2) = rng_next g1;
                v1 = r1 mod n;
                v2 = (v1 + 1 + r2 mod (n - 1)) mod n
            in Inr ((v1, v2), g2)))"

text \<open>
  \<^verbatim>\<open>random.randint(lo, hi)\<close>: an integer of \<open>[lo, hi]\<close>; \<^verbatim>\<open>ValueError\<close> on an empty range.
\<close>

definition random_randint :: "int \<Rightarrow> int \<Rightarrow> rng \<Rightarrow> error + (int \<times> rng)" where
  "random_randint lo hi g =
     (if hi < lo then Inl ValueError
      else (let (r, g') = rng_next g in Inr (lo + int r mod (hi - lo + 1), g')))"

text \<open>\<^verbatim>\<open>random.uniform(0, 1)\<close>: a multiple of \<open>2\<^sup>-\<^sup>5\<^sup>3\<close> in \<open>[0, 1)\<close>.\<close>

definition random_uniform01 :: "rng \<Rightarrow> real \<times> rng" where
  "random_uniform01 g = (let (r, g') = rng_next g in (real (r mod 2 ^ 53) / 2 ^ 53, g'))"

section \<open>Neighbourhood generator: \<^verbatim>\<open>generate_new_solution\<close>\<close>

text \<open>
  On values: \<^verbatim>\<open>new_routes\<close> starts as a copy of \<^verbatim>\<open>routes\<close>; the guard tests that the
  two selected routes are non-empty lists; the right-hand side of the tuple assignment is
  read before either element is written. The indices are in range whenever the library
  calls return, so no list access raises.
\<close>

definition generate_new_solution :: "routes \<Rightarrow> rng \<Rightarrow> error + (routes \<times> rng)" where
  "generate_new_solution rs g =
     (let new_routes = rs in
      case random_sample2 (length new_routes) g of
        Inl e \<Rightarrow> Inl e
      | Inr ((vehicle1, vehicle2), g1) \<Rightarrow>
          if new_routes ! vehicle1 \<noteq> [] \<and> new_routes ! vehicle2 \<noteq> [] then
            (case random_randint 1 (int (length (new_routes ! vehicle1)) - 2) g1 of
               Inl e \<Rightarrow> Inl e
             | Inr (i, g2) \<Rightarrow>
                 (case random_randint 1 (int (length (new_routes ! vehicle2)) - 2) g2 of
                    Inl e \<Rightarrow> Inl e
                  | Inr (j, g3) \<Rightarrow>
                      (let x = new_routes ! vehicle2 ! nat j;
                           y = new_routes ! vehicle1 ! nat i;
                           nr1 = new_routes[vehicle1 := (new_routes ! vehicle1)[nat i := x]];
                           nr2 = nr1[vehicle2 := (nr1 ! vehicle2)[nat j := y]]
                       in Inr (nr2, g3))))
          else Inr (new_routes, g1))"

text \<open>
  On the store. Python lists are mutable objects, and a solution is a list of references
  to route objects. The store holds the route objects, addressed by position; a solution
  is the list of the addresses of its routes, and the addresses it holds denote live
  objects. The function assigns to elements of routes only, never to a list of routes.
\<close>

type_synonym store = "route list"
type_synonym solution = "nat list"

definition deref :: "store \<Rightarrow> solution \<Rightarrow> routes" where
  "deref h ps = map (\<lambda>p. h ! p) ps"

text \<open>
  \<^verbatim>\<open>new_routes = [route[:] for route in routes]\<close>: every slice allocates a fresh route
  object holding the elements of the route it copies.
\<close>

fun copy_routes :: "store \<Rightarrow> solution \<Rightarrow> solution \<times> store" where
  "copy_routes h [] = ([], h)"
| "copy_routes h (p # ps) =
     (let h1 = h @ [h ! p];
          (qs, h2) = copy_routes h1 ps
      in (length h # qs, h2))"

text \<open>
  The function on the store: the two assignments of the swap write into the route objects
  that \<^verbatim>\<open>new_routes[vehicle1]\<close> and \<^verbatim>\<open>new_routes[vehicle2]\<close> refer to.
\<close>

definition generate_new_solution_st ::
  "store \<Rightarrow> solution \<Rightarrow> rng \<Rightarrow> error + (solution \<times> store \<times> rng)" where
  "generate_new_solution_st h rs g =
     (let (new_routes, h1) = copy_routes h rs in
      case random_sample2 (length new_routes) g of
        Inl e \<Rightarrow> Inl e
      | Inr ((vehicle1, vehicle2), g1) \<Rightarrow>
          (let p1 = new_routes ! vehicle1;
               p2 = new_routes ! vehicle2
           in if h1 ! p1 \<noteq> [] \<and> h1 ! p2 \<noteq> [] then
                (case random_randint 1 (int (length (h1 ! p1)) - 2) g1 of
                   Inl e \<Rightarrow> Inl e
                 | Inr (i, g2) \<Rightarrow>
                     (case random_randint 1 (int (length (h1 ! p2)) - 2) g2 of
                        Inl e \<Rightarrow> Inl e
                      | Inr (j, g3) \<Rightarrow>
                          (let x = h1 ! p2 ! nat j;
                               y = h1 ! p1 ! nat i;
                               h2 = h1[p1 := (h1 ! p1)[nat i := x]];
                               h3 = h2[p2 := (h2 ! p2)[nat j := y]]
                           in Inr (new_routes, h3, g3))))
              else Inr (new_routes, h1, g1)))"

section \<open>Annealing engine: \<^verbatim>\<open>simulated_annealing\<close>\<close>

text \<open>
  The acceptance test \<^verbatim>\<open>random.uniform(0, 1) < math.exp((best_cost - cost) / temperature)\<close>
  mixes Python ints and floats: a cost is an int or \<^verbatim>\<open>float('inf')\<close>, and the temperature
  is the int \<open>1000\<close> during the first pass and a float from the first
  \<^verbatim>\<open>temperature *= cooling_rate\<close> on.

  Where an int meets a float Python converts the int, rounding to 53 bits, half to even.
  From \<^verbatim>\<open>2**1024 - 2**970\<close> on in magnitude the rounded value would be \<^verbatim>\<open>2**1024\<close>,
  which is no float, and the conversion raises \<^verbatim>\<open>OverflowError\<close>. The true division of two ints
  rounds the exact quotient in the same way and raises \<^verbatim>\<open>OverflowError\<close> when the quotient
  reaches that bound. \<^verbatim>\<open>math.exp\<close> raises \<^verbatim>\<open>OverflowError\<close> when its result does. A division
  by zero raises \<^verbatim>\<open>ZeroDivisionError\<close>.

  Finite floats are taken as exact reals (the rounding of finite results is not
  modelled); the infinities and the not-a-number follow the IEEE rules Python applies.
\<close>

definition float_bound :: int where
  "float_bound = 2 ^ 1024 - 2 ^ 970"

definition int_to_float :: "int \<Rightarrow> error + real" where
  "int_to_float n = (if float_bound \<le> \<bar>n\<bar> then Inl OverflowError else Inr (real_of_int n))"

datatype pyfloat = Fin real | PosInf | NegInf | NaN

text \<open>The temperature: an int, or a finite float.\<close>

datatype number = IntNum int | FloatNum real

fun num_val :: "number \<Rightarrow> real" where
  "num_val (IntNum n) = real_of_int n"
| "num_val (FloatNum x) = x"

fun to_float :: "number \<Rightarrow> error + real" where
  "to_float (IntNum n) = int_to_float n"
| "to_float (FloatNum x) = Inr x"

text \<open>
  \<^verbatim>\<open>best_cost - cost\<close>: an int when both costs are ints; otherwise the int operand is
  converted and the result is an infinity or, for \<open>inf - inf\<close>, not a number.
\<close>

datatype difference = IntDiff int | FloatDiff pyfloat

fun cost_sub :: "cost \<Rightarrow> cost \<Rightarrow> error + difference" where
  "cost_sub (Finite x) (Finite y) = Inr (IntDiff (x - y))"
| "cost_sub (Finite x) Infinity =
     (case int_to_float x of Inl e \<Rightarrow> Inl e | Inr x' \<Rightarrow> Inr (FloatDiff NegInf))"
| "cost_sub Infinity (Finite y) =
     (case int_to_float y of Inl e \<Rightarrow> Inl e | Inr y' \<Rightarrow> Inr (FloatDiff PosInf))"
| "cost_sub Infinity Infinity = Inr (FloatDiff NaN)"

text \<open>The division of a float by a finite float.\<close>

definition float_div :: "pyfloat \<Rightarrow> real \<Rightarrow> error + pyfloat" where
  "float_div x t =
     (if t = 0 then Inl ZeroDivisionError
      else Inr (case x of
                  Fin r \<Rightarrow> Fin (r / t)
                | PosInf \<Rightarrow> (if 0 < t then PosInf else NegInf)
                | NegInf \<Rightarrow> (if 0 < t then NegInf else PosInf)
                | NaN \<Rightarrow> NaN))"

text \<open>
  \<^verbatim>\<open>(best_cost - cost) / temperature\<close>: the true division of two ints, or the division of
  floats after the conversion of the int operand.
\<close>

fun div_temperature :: "difference \<Rightarrow> number \<Rightarrow> error + pyfloat" where
  "div_temperature (IntDiff d) (IntNum t) =
     (if t = 0 then Inl ZeroDivisionError
      else if float_bound * \<bar>t\<bar> \<le> \<bar>d\<bar> then Inl OverflowError
      else Inr (Fin (real_of_int d / real_of_int t)))"
| "div_temperature (IntDiff d) (FloatNum t) =
     (case int_to_float d of Inl e \<Rightarrow> Inl e | Inr x \<Rightarrow> float_div (Fin x) t)"
| "div_temperature (FloatDiff x) t =
     (case to_float t of Inl e \<Rightarrow> Inl e | Inr y \<Rightarrow> float_div x y)"

fun math_exp :: "pyfloat \<Rightarrow> error + pyfloat" where
  "math_exp (Fin x) =
     (if real_of_int float_bound \<le> exp x then Inl OverflowError else Inr (Fin (exp x)))"
| "math_exp PosInf = Inr PosInf"
| "math_exp NegInf = Inr (Fin 0)"
| "math_exp NaN = Inr NaN"

fun float_less :: "real \<Rightarrow> pyfloat \<Rightarrow> bool" where
  "float_less u (Fin y) = (u < y)"
| "float_less u PosInf = True"
| "float_less u NegInf = False"
| "float_less u NaN = False"

definition acceptance_probability :: "cost \<Rightarrow> cost \<Rightarrow> number \<Rightarrow> error + pyfloat" where
  "acceptance_probability best_c c t =
     (case cost_sub best_c c of
        Inl e \<Rightarrow> Inl e
      | Inr d \<Rightarrow> (case div_temperature d t of Inl e \<Rightarrow> Inl e | Inr x \<Rightarrow> math_exp x))"

text \<open>\<^verbatim>\<open>temperature *= cooling_rate\<close>, with the float \<^verbatim>\<open>cooling_rate\<close>: the result is a float.\<close>

definition cool :: "number \<Rightarrow> real \<Rightarrow> error + number" where
  "cool t cooling_rate =
     (case to_float t of Inl e \<Rightarrow> Inl e | Inr x \<Rightarrow> Inr (FloatNum (x * cooling_rate)))"

text \<open>The variables of the loop, and the state of the random source.\<close>

record sa_state =
  current_routes :: routes
  best_routes :: routes
  best_cost :: cost
  temperature :: number
  rng_state :: rng

text \<open>
  The initialisation: \<^verbatim>\<open>current_routes = feasible_routes\<close> reads the notebook's global
  \<^verbatim>\<open>feasible_routes\<close>; the arguments \<^verbatim>\<open>initial_routes\<close> and \<^verbatim>\<open>num_vehicles\<close> (the latter
  only sizes the arc ledger) are not used.
\<close>

definition sa_init :: "parameters \<Rightarrow> routes \<Rightarrow> int \<Rightarrow> rng \<Rightarrow> error + sa_state" where
  "sa_init inst initial_routes num_vehicles g =
     (let current = feasible_routes;
          best = current
      in case calculate_cost inst best of
           Inl e \<Rightarrow> Inl e
         | Inr c \<Rightarrow>
             Inr \<lparr>current_routes = current, best_routes = best, best_cost = c,
                  temperature = IntNum 1000, rng_state = g\<rparr>)"

text \<open>
  One pass through the body of \<^verbatim>\<open>while temperature > 1\<close>. The \<^verbatim>\<open>or\<close> draws the uniform
  number only when the candidate is not strictly cheaper than the best, and draws it
  before the right-hand side of the comparison is computed. An exception of the
  acceptance test or of the cooling leaves the function.
\<close>

definition sa_iteration :: "real \<Rightarrow> parameters \<Rightarrow> sa_state \<Rightarrow> error + sa_state" where
  "sa_iteration cooling_rate inst s =
     (case generate_new_solution (current_routes s) (rng_state s) of
        Inl e \<Rightarrow> Inl e
      | Inr (new_routes, g1) \<Rightarrow>
          (case calculate_cost inst new_routes of
             Inl e \<Rightarrow> Inl e
           | Inr c \<Rightarrow>
               (case (if cost_less c (best_cost s) then Inr (True, g1)
                      else (let (u, g') = random_uniform01 g1
                            in case acceptance_probability (best_cost s) c (temperature s) of
                                 Inl e \<Rightarrow> Inl e
                               | Inr p \<Rightarrow> Inr (float_less u p, g'))) of
                  Inl e \<Rightarrow> Inl e
                | Inr (accept, g2) \<Rightarrow>
                    (let s1 = (if accept then s\<lparr>current_routes := new_routes\<rparr> else s);
                         s2 = (if accept \<and> cost_less c (best_cost s)
                               then s1\<lparr>best_cost := c, best_routes := new_routes\<rparr> else s1)
                     in case cool (temperature s) cooling_rate of
                          Inl e \<Rightarrow> Inl e
                        | Inr t' \<Rightarrow> Inr (s2\<lparr>temperature := t', rng_state := g2\<rparr>)))))"

text \<open>
  The loop. Whether it ends depends on the cooling rate, so it is a partial function:
  \<open>None\<close> stands for running forever, \<open>Some (Inl e)\<close> for an exception leaving the loop.
\<close>

partial_function (option) sa_loop ::
  "real \<Rightarrow> parameters \<Rightarrow> sa_state \<Rightarrow> (error + sa_state) option" where
  "sa_loop cooling_rate inst s =
     (if num_val (temperature s) > 1 then
        (let r = sa_iteration cooling_rate inst s
         in if isl r then Some (Inl (projl r)) else sa_loop cooling_rate inst (projr r))
      else Some (Inr s))"

text \<open>The whole function, with \<^verbatim>\<open>cooling_rate = 0.99\<close>; it returns the best pair.\<close>

definition simulated_annealing ::
  "parameters \<Rightarrow> routes \<Rightarrow> int \<Rightarrow> rng \<Rightarrow> (error + (routes \<times> cost)) option" where
  "simulated_annealing inst initial_routes num_vehicles g =
     (case sa_init inst initial_routes num_vehicles g of
        Inl e \<Rightarrow> Some (Inl e)
      | Inr s0 \<Rightarrow>
          (case sa_loop (99 / 100) inst s0 of
             None \<Rightarrow> None
           | Some (Inl e) \<Rightarrow> Some (Inl e)
           | Some (Inr s) \<Rightarrow> Some (Inr (best_routes s, best_cost s))))"

text \<open>
  A state of the loop on the notebook's instance, at temperature \<open>t\<close>, with the random
  source that returns \<open>0\<close> for ever: the state the engine starts from when \<open>t\<close> is the
  int \<open>1000\<close>.
\<close>

definition example_state :: "number \<Rightarrow> sa_state" where
  "example_state t =
     \<lparr>current_routes = feasible_routes, best_routes = feasible_routes, best_cost = Finite 149,
      temperature = t, rng_state = (\<lambda>_. 0)\<rparr>"

section \<open>Properties of the cost evaluator\<close>

lemmas example_defs =
  example_instance_def example_cij_def example_tij_def example_di_def example_a_def
  example_b_def

text \<open>
  Claim C9 (Scenario B). On every instance whose cost table has
  \<open>cost[0,1] = 44\<close>, \<open>cost[1,4] = 13\<close>, \<open>cost[0,2] = 28\<close>, \<open>cost[2,3] = 18\<close> and
  \<open>cost[3,4] = 25\<close>, and whose travel times, demands, capacity and time windows are those
  of the worked example, \<^verbatim>\<open>calculate_cost\<close> of \<open>[[0,1,4],[0,2,3,4]]\<close> returns exactly 128.
\<close>

theorem scenario_B_cost:
  assumes "lookup (cij inst) (0, 1) = Some 44"
    and "lookup (cij inst) (1, 4) = Some 13"
    and "lookup (cij inst) (0, 2) = Some 28"
    and "lookup (cij inst) (2, 3) = Some 18"
    and "lookup (cij inst) (3, 4) = Some 25"
    and "tij inst = example_tij" and "di inst = example_di" and "q inst = 20"
    and "a inst = example_a" and "b inst = example_b"
  shows "calculate_cost inst exact_routes = Inr (Finite 128)"
  using assms
  by (simp add: calculate_cost_def exact_routes_def lookup_def example_tij_def
      example_di_def example_a_def example_b_def)

theorem scenario_B_cost_witness:
  "lookup (cij example_instance) (0, 1) = Some 44
   \<and> lookup (cij example_instance) (1, 4) = Some 13
   \<and> lookup (cij example_instance) (0, 2) = Some 28
   \<and> lookup (cij example_instance) (2, 3) = Some 18
   \<and> lookup (cij example_instance) (3, 4) = Some 25
   \<and> calculate_cost example_instance exact_routes = Inr (Finite 128)"
proof -
  have h: "lookup (cij example_instance) (0, 1) = Some 44"
    "lookup (cij example_instance) (1, 4) = Some 13"
    "lookup (cij example_instance) (0, 2) = Some 28"
    "lookup (cij example_instance) (2, 3) = Some 18"
    "lookup (cij example_instance) (3, 4) = Some 25"
    by (simp_all add: lookup_def example_defs)
  have g: "tij example_instance = example_tij" "di example_instance = example_di"
    "q example_instance = 20" "a example_instance = example_a"
    "b example_instance = example_b"
    by (simp_all add: example_instance_def)
  show ?thesis
    using h scenario_B_cost [OF h g] by simp
qed

lemma cost_route_short: "length rt < 2 \<Longrightarrow> cost_route inst t l ar rt = Inr (Finite t)"
proof (cases rt)
  case Nil
  then show ?thesis by simp
next
  case (Cons i rest)
  assume "length rt < 2"
  with Cons have "rest = []" by simp
  with Cons show ?thesis by simp
qed

text \<open>
  Claim C10. For every instance, \<^verbatim>\<open>calculate_cost\<close> of a solution in which every route has
  fewer than two nodes (the solution of empty routes included) returns the finite cost
  \<open>0\<close>: the body of the inner loop, and with it every capacity and time-window test, is
  never entered.
\<close>

theorem cost_of_short_routes:
  assumes "\<forall>rt \<in> set rs. length rt < 2"
  shows "calculate_cost inst rs = Inr (Finite 0)"
  using assms unfolding calculate_cost_def
  by (induction rs) (simp_all add: cost_route_short)

theorem cost_of_short_routes_witness:
  "length ([] :: int list) < 2 \<and> length [0::int] < 2 \<and> length [3::int] < 2
   \<and> calculate_cost example_instance [[], [0], [3]] = Inr (Finite 0)"
proof -
  have h: "\<forall>rt \<in> set [[], [0], [3::int]]. length rt < 2" by simp
  show ?thesis
    using cost_of_short_routes [OF h, of example_instance] by simp
qed

section \<open>Cost evaluator against feasibility evaluator\<close>

lemma card_customers_visited:
  "card (customers_visited inst rs) =
     length (remdups (filter (\<lambda>i. i \<noteq> 0 \<and> i \<noteq> dict_len (b inst) - 1) (concat rs)))"
  by (simp only: customers_visited_def List.card_set)

lemma cost_route_finite_feasible:
  "cost_route inst t l ar rt = Inr (Finite t') \<Longrightarrow> feasible_route inst l ar rt = Inr True"
proof (induction inst l ar rt arbitrary: t rule: feasible_route.induct)
  case (1 inst load arrival_time i j rest)
  then show ?case
    by (auto simp: Let_def split: option.splits if_splits)
qed simp_all

lemma feasible_route_cost:
  "feasible_route inst l ar rt = Inr True \<Longrightarrow>
     cost_route inst t l ar rt = Inl KeyError \<or> (\<exists>t'. cost_route inst t l ar rt = Inr (Finite t'))"
proof (induction inst l ar rt arbitrary: t rule: feasible_route.induct)
  case (1 inst load arrival_time i j rest)
  from "1.prems" obtain t0 aj bj where
    tk: "lookup (tij inst) (i, j) = Some t0" and ak: "lookup (a inst) j = Some aj"
    and bk: "lookup (b inst) j = Some bj"
    and tw: "\<not> max (arrival_time + t0) aj > bj"
    and cap: "\<not> (lookup (di inst) j \<noteq> None
        \<and> (case lookup (di inst) j of None \<Rightarrow> load | Some d \<Rightarrow> load + d) > q inst)"
    and rec: "feasible_route inst (case lookup (di inst) j of None \<Rightarrow> load | Some d \<Rightarrow> load + d)
        (max (arrival_time + t0) aj) (j # rest) = Inr True"
    by (auto simp: Let_def split: option.splits if_splits)
  show ?case
  proof (cases "lookup (cij inst) (i, j)")
    case None
    then show ?thesis by simp
  next
    case (Some c)
    from "1.IH" [OF refl cap tk ak refl bk tw rec, of "t + c"]
    show ?thesis using Some tk ak bk tw cap by (auto simp: Let_def)
  qed
qed simp_all

lemma cost_routes_loop_finite_feasible:
  "cost_routes_loop inst t rs = Inr (Finite c) \<Longrightarrow>
     \<forall>rt \<in> set rs. feasible_route inst 0 0 rt = Inr True"
proof (induction rs arbitrary: t)
  case Nil
  then show ?case by simp
next
  case (Cons rt rs)
  then show ?case
    by (auto split: sum.splits cost.splits dest: cost_route_finite_feasible)
qed

lemma feasible_routes_loop_traversal:
  "feasible_routes_loop inst rs = Inr True \<Longrightarrow>
     \<forall>rt \<in> set rs. feasible_route inst 0 0 rt = Inr True"
proof (induction rs)
  case Nil
  then show ?case by simp
next
  case (Cons rt rs)
  then show ?case
    by (auto split: sum.splits bool.splits if_splits)
qed

lemma traversal_cost_routes_loop:
  "\<forall>rt \<in> set rs. feasible_route inst 0 0 rt = Inr True \<Longrightarrow>
     cost_routes_loop inst t rs = Inl KeyError \<or> (\<exists>c. cost_routes_loop inst t rs = Inr (Finite c))"
proof (induction rs arbitrary: t)
  case Nil
  then show ?case by simp
next
  case (Cons rt rs)
  from Cons.prems have fr: "feasible_route inst 0 0 rt = Inr True"
    and rest: "\<forall>rt \<in> set rs. feasible_route inst 0 0 rt = Inr True"
    by simp_all
  from feasible_route_cost [OF fr, of t] show ?case
  proof
    assume "cost_route inst t 0 0 rt = Inl KeyError"
    then show ?thesis by simp
  next
    assume "\<exists>t'. cost_route inst t 0 0 rt = Inr (Finite t')"
    then obtain t' where "cost_route inst t 0 0 rt = Inr (Finite t')" ..
    with Cons.IH [OF rest, of t'] show ?thesis by simp
  qed
qed

lemma example_exact_feasible: "is_feasible example_instance exact_routes = Inr True"
  by (simp add: is_feasible_def card_customers_visited dict_len_def lookup_def example_defs
      exact_routes_def)

lemma example_exact_cost: "calculate_cost example_instance exact_routes = Inr (Finite 128)"
  by (simp add: calculate_cost_def lookup_def example_defs exact_routes_def)

lemma example_infeasible_rejected:
  "is_feasible example_instance infeasible_routes = Inr False"
  by (simp add: is_feasible_def card_customers_visited dict_len_def lookup_def example_defs
      infeasible_routes_def)

lemma example_infeasible_cost:
  "calculate_cost example_instance infeasible_routes = Inr (Finite 103)"
  by (simp add: calculate_cost_def lookup_def example_defs infeasible_routes_def)

lemma example_infeasible_traversal:
  "feasible_route example_instance 0 0 [0, 1, 4] = Inr True"
  "feasible_route example_instance 0 0 [0, 2, 3] = Inr True"
  by (simp_all add: lookup_def example_defs)

lemma example_overload_cost:
  "calculate_cost example_instance [[0, 2, 4], [0, 3, 1, 4]] = Inr Infinity"
  by (simp add: calculate_cost_def lookup_def example_defs)

lemma example_overload_route:
  "feasible_route example_instance 0 0 [0, 3, 1, 4] = Inr False"
  by (simp add: lookup_def example_defs)

text \<open>
  Claim C1, as stated, fails. On the notebook's instance \<open>[[0,1,4],[0,2,3,4]]\<close> is accepted
  by \<^verbatim>\<open>is_feasible\<close> and costs 128, while \<open>[[0,1,4],[0,2,3]]\<close> is rejected by
  \<^verbatim>\<open>is_feasible\<close> (its second route does not end at the depot) and costs 103, as the
  notebook's own output shows: the feasible solution is not the cheaper one.
\<close>

theorem sentinel_dominance_counterexample:
  "is_feasible example_instance exact_routes = Inr True
   \<and> is_feasible example_instance infeasible_routes = Inr False
   \<and> calculate_cost example_instance exact_routes = Inr (Finite 128)
   \<and> calculate_cost example_instance infeasible_routes = Inr (Finite 103)
   \<and> \<not> cost_less (Finite 128) (Finite 103)"
  by (simp add: example_exact_feasible example_infeasible_rejected example_exact_cost
      example_infeasible_cost)

text \<open>
  Claim C1, amended. \<^verbatim>\<open>calculate_cost\<close> repeats the capacity and time-window traversal of
  \<^verbatim>\<open>is_feasible\<close> and examines nothing else. If \<^verbatim>\<open>is_feasible\<close> accepts \<open>S\<close>, and the
  traversal of \<^verbatim>\<open>is_feasible\<close> returns \<open>False\<close> on some route of \<open>I\<close>, then whenever both
  evaluations return, the cost of \<open>S\<close> is strictly below the cost of \<open>I\<close>. The cost of a
  solution that \<^verbatim>\<open>is_feasible\<close> accepts is finite, unless a cost entry is missing. For any
  solution \<open>R\<close>, whatever its coverage and its endpoints: if every route of \<open>R\<close> passes
  the traversal, the cost of \<open>R\<close> is finite, unless a cost entry is missing; if the cost
  of \<open>R\<close> is finite, every route of \<open>R\<close> passes the traversal; so when no cost entry is
  missing, the cost is finite exactly when every route passes the traversal.
\<close>

theorem sentinel_dominance_traversal:
  "(is_feasible inst S = Inr True \<and> calculate_cost inst S = Inr cS
      \<and> calculate_cost inst I = Inr cI
      \<and> (\<exists>rt \<in> set I. feasible_route inst 0 0 rt = Inr False) \<longrightarrow> cost_less cS cI)
   \<and> (is_feasible inst S = Inr True \<longrightarrow>
        calculate_cost inst S = Inl KeyError \<or> (\<exists>c. calculate_cost inst S = Inr (Finite c)))
   \<and> ((\<forall>rt \<in> set R. feasible_route inst 0 0 rt = Inr True) \<longrightarrow>
        calculate_cost inst R = Inl KeyError \<or> (\<exists>c. calculate_cost inst R = Inr (Finite c)))
   \<and> (calculate_cost inst R = Inr (Finite c) \<longrightarrow>
        (\<forall>rt \<in> set R. feasible_route inst 0 0 rt = Inr True))
   \<and> (calculate_cost inst R \<noteq> Inl KeyError \<longrightarrow>
        (\<exists>c. calculate_cost inst R = Inr (Finite c)) =
        (\<forall>rt \<in> set R. feasible_route inst 0 0 rt = Inr True))"
proof -
  have pass_finite: "calculate_cost inst X = Inl KeyError
      \<or> (\<exists>c. calculate_cost inst X = Inr (Finite c))"
    if "\<forall>rt \<in> set X. feasible_route inst 0 0 rt = Inr True" for X
    using that unfolding calculate_cost_def by (rule traversal_cost_routes_loop)
  have finite_pass: "\<forall>rt \<in> set X. feasible_route inst 0 0 rt = Inr True"
    if "calculate_cost inst X = Inr (Finite c)" for X c
    using that unfolding calculate_cost_def by (rule cost_routes_loop_finite_feasible)
  have accepted_pass: "\<forall>rt \<in> set X. feasible_route inst 0 0 rt = Inr True"
    if "is_feasible inst X = Inr True" for X
  proof -
    from that have "feasible_routes_loop inst X = Inr True"
      by (simp add: is_feasible_def split: if_splits)
    then show ?thesis by (rule feasible_routes_loop_traversal)
  qed
  have dominance: "cost_less cS cI"
    if h: "is_feasible inst S = Inr True \<and> calculate_cost inst S = Inr cS
      \<and> calculate_cost inst I = Inr cI
      \<and> (\<exists>rt \<in> set I. feasible_route inst 0 0 rt = Inr False)"
  proof -
    from h have "is_feasible inst S = Inr True" by simp
    then have "\<forall>rt \<in> set S. feasible_route inst 0 0 rt = Inr True"
      by (rule accepted_pass)
    from pass_finite [OF this] h obtain x where cS: "cS = Finite x" by auto
    have "cI = Infinity"
    proof (cases cI)
      case (Finite y)
      with h have "calculate_cost inst I = Inr (Finite y)" by simp
      from finite_pass [OF this] h show ?thesis by auto
    qed simp
    with cS show ?thesis by simp
  qed
  have accepted_finite: "calculate_cost inst S = Inl KeyError
      \<or> (\<exists>c. calculate_cost inst S = Inr (Finite c))"
    if "is_feasible inst S = Inr True"
    using that by (intro pass_finite accepted_pass)
  have exactly: "(\<exists>c. calculate_cost inst R = Inr (Finite c)) =
      (\<forall>rt \<in> set R. feasible_route inst 0 0 rt = Inr True)"
    if "calculate_cost inst R \<noteq> Inl KeyError"
    using that pass_finite [of R] finite_pass [of R] by blast
  from dominance accepted_finite pass_finite [of R] finite_pass [of R c] exactly
  show ?thesis by (intro conjI impI)
qed

theorem sentinel_dominance_traversal_witness:
  "is_feasible example_instance exact_routes = Inr True
   \<and> calculate_cost example_instance exact_routes = Inr (Finite 128)
   \<and> calculate_cost example_instance [[0, 2, 4], [0, 3, 1, 4]] = Inr Infinity
   \<and> feasible_route example_instance 0 0 [0, 3, 1, 4] = Inr False
   \<and> cost_less (Finite 128) Infinity
   \<and> feasible_route example_instance 0 0 [0, 1, 4] = Inr True
   \<and> feasible_route example_instance 0 0 [0, 2, 3] = Inr True
   \<and> is_feasible example_instance infeasible_routes = Inr False
   \<and> calculate_cost example_instance infeasible_routes = Inr (Finite 103)
   \<and> calculate_cost example_instance infeasible_routes \<noteq> Inl KeyError"
proof -
  note at_example = sentinel_dominance_traversal
      [of example_instance exact_routes "Finite 128" "[[0, 2, 4], [0, 3, 1, 4]]" Infinity
        infeasible_routes 103]
  have over: "\<exists>rt \<in> set [[0, 2, 4], [0, 3, 1, 4]].
      feasible_route example_instance 0 0 rt = Inr False"
    using example_overload_route by simp
  have pass: "\<forall>rt \<in> set infeasible_routes. feasible_route example_instance 0 0 rt = Inr True"
    using example_infeasible_traversal by (simp add: infeasible_routes_def)
  from at_example over example_exact_feasible example_exact_cost example_overload_cost
  have "cost_less (Finite 128) Infinity" by simp
  moreover from at_example pass
  have "calculate_cost example_instance infeasible_routes = Inl KeyError
      \<or> (\<exists>c. calculate_cost example_instance infeasible_routes = Inr (Finite c))"
    by simp
  ultimately show ?thesis
    using example_exact_feasible example_exact_cost example_overload_cost
      example_overload_route example_infeasible_traversal example_infeasible_rejected
      example_infeasible_cost
    by simp
qed

text \<open>
  Claim C3 fails on the code. The coverage test compares the number of distinct nodes
  collected in a set with the number of customers, so a repeated customer goes unnoticed:
  on the notebook's instance \<open>[[0,2,1,4],[0,2,3,4]]\<close> visits customer 2 in both routes,
  covers every customer, and is accepted.
\<close>

theorem duplicate_customer_accepted:
  "is_feasible example_instance [[0, 2, 1, 4], [0, 2, 3, 4]] = Inr True"
  by (simp add: is_feasible_def card_customers_visited dict_len_def lookup_def example_defs)

section \<open>Move operator and annealing engine\<close>

lemma random_sample2_range:
  "random_sample2 n g = Inr ((v1, v2), g') \<Longrightarrow> v1 < n \<and> v2 < n \<and> v1 \<noteq> v2"
proof -
  assume h: "random_sample2 n g = Inr ((v1, v2), g')"
  then have n: "2 \<le> n" by (auto simp: random_sample2_def split: if_splits)
  obtain r where v1: "v1 = g 0 mod n" and v2: "v2 = (v1 + 1 + r mod (n - 1)) mod n"
    using h n by (auto simp: random_sample2_def rng_next_def Let_def split: if_splits)
  from n v1 have lt1: "v1 < n" by simp
  from n v2 have lt2: "v2 < n" by simp
  define k where "k = 1 + r mod (n - 1)"
  have "r mod (n - 1) < n - 1" using n by simp
  then have k: "0 < k" "k < n" unfolding k_def by simp_all
  from v2 have v2k: "v2 = (v1 + k) mod n" by (simp add: k_def add.assoc)
  have "v1 \<noteq> v2"
  proof (cases "v1 + k < n")
    case True
    with v2k k show ?thesis by simp
  next
    case False
    then have "(v1 + k) mod n = (v1 + k - n) mod n" by (simp add: le_mod_geq)
    also have "\<dots> = v1 + k - n" using lt1 k by simp
    finally show ?thesis using v2k k False by simp
  qed
  with lt1 lt2 show ?thesis by simp
qed

lemma random_sample2_small: "n < 2 \<Longrightarrow> random_sample2 n g = Inl ValueError"
  by (simp add: random_sample2_def)

lemma random_sample2_returns:
  "2 \<le> n \<Longrightarrow> \<exists>v1 v2 g'. random_sample2 n g = Inr ((v1, v2), g')"
  by (simp add: random_sample2_def Let_def split: prod.splits)

lemma random_randint_range:
  "random_randint lo hi g = Inr (i, g') \<Longrightarrow> lo \<le> i \<and> i \<le> hi"
proof -
  assume h: "random_randint lo hi g = Inr (i, g')"
  then have le: "lo \<le> hi" by (auto simp: random_randint_def split: if_splits)
  from h le obtain r :: nat where i: "i = lo + int r mod (hi - lo + 1)"
    by (auto simp: random_randint_def rng_next_def Let_def split: if_splits)
  from le have pos: "0 < hi - lo + 1" by simp
  have "0 \<le> int r mod (hi - lo + 1)" "int r mod (hi - lo + 1) < hi - lo + 1"
    using pos by (rule pos_mod_sign, rule pos_mod_bound)
  with i show ?thesis by simp
qed

lemma random_randint_empty: "hi < lo \<Longrightarrow> random_randint lo hi g = Inl ValueError"
  by (simp add: random_randint_def)

lemma random_randint_returns:
  "lo \<le> hi \<Longrightarrow> \<exists>i g'. random_randint lo hi g = Inr (i, g')"
  by (simp add: random_randint_def Let_def split: prod.splits)

text \<open>
  Claim C4 fails on the code. The guard of \<^verbatim>\<open>generate_new_solution\<close> tests that the two
  selected routes are non-empty lists, not that they have an interior node. For the
  solution \<open>[[0,4],[0,1,2,3,4]]\<close>, whose first route holds the two depot nodes only, both
  routes pass the guard and \<^verbatim>\<open>random.randint(1, 0)\<close> raises \<^verbatim>\<open>ValueError\<close>, whatever the
  random source returns.
\<close>

theorem depot_only_route_raises:
  "generate_new_solution [[0, 4], [0, 1, 2, 3, 4]] g = Inl ValueError"
proof -
  define rs :: routes where "rs = [[0, 4], [0, 1, 2, 3, 4]]"
  have len: "length rs = 2" by (simp add: rs_def)
  obtain v1 v2 g1 where sm: "random_sample2 (length rs) g = Inr ((v1, v2), g1)"
    using random_sample2_returns [of "length rs" g] len by auto
  from random_sample2_range [OF sm] len have "(v1 = 0 \<and> v2 = 1) \<or> (v1 = 1 \<and> v2 = 0)"
    by auto
  then have "generate_new_solution rs g = Inl ValueError"
  proof
    assume "v1 = 0 \<and> v2 = 1"
    with sm show ?thesis
      by (simp add: generate_new_solution_def random_randint_empty rs_def)
  next
    assume v: "v1 = 1 \<and> v2 = 0"
    obtain i g2 where "random_randint 1 3 g1 = Inr (i, g2)"
      using random_randint_returns [of 1 3 g1] by auto
    with sm v show ?thesis
      by (simp add: generate_new_solution_def random_randint_empty rs_def)
  qed
  then show ?thesis by (simp add: rs_def)
qed

lemma example_feasible_cost: "calculate_cost example_instance feasible_routes = Inr (Finite 149)"
  by (simp add: calculate_cost_def lookup_def example_defs feasible_routes_def)

text \<open>
  Claim C2 fails on the code. Called with the seed \<open>[[0,1,4],[0,2,3,4]]\<close> (cost 128), the
  engine starts with \<^verbatim>\<open>current_routes\<close> and \<^verbatim>\<open>best_routes\<close> bound to the global
  \<^verbatim>\<open>feasible_routes = [[0,3,4],[0,2,1,4]]\<close> and with \<^verbatim>\<open>best_cost = 149\<close>: the argument
  \<^verbatim>\<open>initial_routes\<close> is never read.
\<close>

theorem seed_ignored:
  "sa_init example_instance exact_routes 2 g =
     Inr \<lparr>current_routes = [[0, 3, 4], [0, 2, 1, 4]], best_routes = [[0, 3, 4], [0, 2, 1, 4]],
          best_cost = Finite 149, temperature = IntNum 1000, rng_state = g\<rparr>
   \<and> calculate_cost example_instance exact_routes = Inr (Finite 128)"
  using example_feasible_cost example_exact_cost
  by (simp add: sa_init_def feasible_routes_def Let_def)

lemma float_bound_large: "1000 < float_bound"
  by (simp add: float_bound_def)

lemma int_to_float_small: "\<bar>n\<bar> \<le> 1000 \<Longrightarrow> int_to_float n = Inr (real_of_int n)"
  using float_bound_large by (simp add: int_to_float_def)

lemma to_float_num_val: "to_float t = Inr x \<Longrightarrow> num_val t = x"
  by (cases t) (auto simp: int_to_float_def split: if_splits)

lemma cool_value: "cool t c = Inr t' \<Longrightarrow> num_val t' = num_val t * c \<and> to_float t' = Inr (num_val t')"
  by (auto simp: cool_def split: sum.splits dest: to_float_num_val)

lemma sa_iteration_cool:
  "sa_iteration c inst s = Inr s' \<Longrightarrow> cool (temperature s) c = Inr (temperature s')"
  by (auto simp: sa_iteration_def Let_def split: sum.splits prod.splits if_splits)

lemma sa_iteration_temperature:
  "sa_iteration c inst s = Inr s' \<Longrightarrow> num_val (temperature s') = num_val (temperature s) * c"
  by (drule sa_iteration_cool) (simp add: cool_value)

lemma sa_iteration_best:
  assumes "sa_iteration c inst s = Inr s1"
  shows "(best_cost s1 = best_cost s \<and> best_routes s1 = best_routes s)
     \<or> (cost_less (best_cost s1) (best_cost s)
         \<and> calculate_cost inst (best_routes s1) = Inr (best_cost s1))"
  using assms
  by (auto simp: sa_iteration_def Let_def split: sum.splits prod.splits if_splits)

lemma cost_less_trans: "cost_less x y \<Longrightarrow> cost_less y z \<Longrightarrow> cost_less x z"
  by (cases x; cases y; cases z) auto

lemma cost_le_trans: "cost_le x y \<Longrightarrow> cost_le y z \<Longrightarrow> cost_le x z"
  unfolding cost_le_def using cost_less_trans by blast

lemma cost_le_refl: "cost_le x x"
  by (simp add: cost_le_def)

lemma sa_loop_best_cost_aux:
  assumes run: "sa_loop c0 inst0 s0 = Some y0"
  shows "\<forall>s'. y0 = Inr s' \<longrightarrow> cost_le (best_cost s') (best_cost s0)"
proof (rule sa_loop.raw_induct
    [where P = "\<lambda>c inst s y. \<forall>s'. y = Inr s' \<longrightarrow> cost_le (best_cost s') (best_cost s)",
      OF _ run])
  fix loop :: "real \<Rightarrow> parameters \<Rightarrow> sa_state \<Rightarrow> (error + sa_state) option"
  fix c inst s y
  assume IH: "\<And>c inst s y. loop c inst s = Some y \<Longrightarrow>
      \<forall>s'. y = Inr s' \<longrightarrow> cost_le (best_cost s') (best_cost s)"
  assume body: "(if 1 < num_val (temperature s)
        then let r = sa_iteration c inst s
             in if isl r then Some (Inl (projl r)) else loop c inst (projr r)
        else Some (Inr s)) = Some y"
  show "\<forall>s'. y = Inr s' \<longrightarrow> cost_le (best_cost s') (best_cost s)"
  proof (cases "num_val (temperature s) > 1")
    case False
    with body show ?thesis by (auto simp: cost_le_refl)
  next
    case True
    show ?thesis
    proof (intro allI impI)
      fix s' assume y: "y = Inr s'"
      with True body obtain s1 where it: "sa_iteration c inst s = Inr s1"
        and rec: "loop c inst s1 = Some (Inr s')"
        by (cases "sa_iteration c inst s") (auto simp: Let_def)
      from IH [OF rec] have "cost_le (best_cost s') (best_cost s1)" by simp
      moreover from sa_iteration_best [OF it] have "cost_le (best_cost s1) (best_cost s)"
        by (auto simp: cost_le_def)
      ultimately show "cost_le (best_cost s') (best_cost s)" by (rule cost_le_trans)
    qed
  qed
qed

lemma sa_loop_floor: "num_val (temperature s) \<le> 1 \<Longrightarrow> sa_loop c inst s = Some (Inr s)"
  by (subst sa_loop.simps) simp

lemma sa_loop_step:
  "1 < num_val (temperature s) \<Longrightarrow>
     sa_loop c inst s =
       (case sa_iteration c inst s of Inl e \<Rightarrow> Some (Inl e) | Inr s' \<Rightarrow> sa_loop c inst s')"
  by (subst sa_loop.simps) (simp add: Let_def split: sum.splits)

lemma sa_loop_returns_within:
  "0 < c \<Longrightarrow> num_val (temperature s) * c ^ n \<le> 1 \<Longrightarrow> \<exists>y. sa_loop c inst s = Some y"
proof (induction n arbitrary: s)
  case 0
  then show ?case by (simp add: sa_loop_floor)
next
  case (Suc n)
  show ?case
  proof (cases "1 < num_val (temperature s)")
    case False
    then show ?thesis by (simp add: sa_loop_floor)
  next
    case True
    show ?thesis
    proof (cases "sa_iteration c inst s")
      case (Inl e)
      with True show ?thesis by (simp add: sa_loop_step)
    next
      case (Inr s1)
      from sa_iteration_temperature [OF Inr] Suc.prems(2)
      have "num_val (temperature s1) * c ^ n \<le> 1" by (simp add: mult.assoc)
      from Suc.IH [OF Suc.prems(1) this] Inr True show ?thesis by (simp add: sa_loop_step)
    qed
  qed
qed

lemma cooling_reaches_floor:
  fixes c t :: real
  assumes "0 < c" "c < 1"
  shows "\<exists>n. t * c ^ n \<le> 1"
proof (cases "t \<le> 1")
  case True
  then have "t * c ^ 0 \<le> 1" by simp
  then show ?thesis ..
next
  case False
  then have t: "0 < t" by simp
  then have "0 < 1 / t" by simp
  from real_arch_pow_inv [OF this assms(2)] obtain n where "c ^ n < 1 / t" ..
  with t have "t * c ^ n < 1" by (simp add: field_simps)
  then have "t * c ^ n \<le> 1" by simp
  then show ?thesis ..
qed

lemma sa_loop_terminates:
  assumes "0 < c" "c < 1"
  shows "\<exists>y. sa_loop c inst s = Some y"
proof -
  from cooling_reaches_floor [OF assms] obtain n where
    "num_val (temperature s) * c ^ n \<le> 1" ..
  with assms(1) show ?thesis by (rule sa_loop_returns_within)
qed

text \<open>
  Claim C7. The annealing loop always terminates: for every cooling rate strictly between
  \<open>0\<close> and \<open>1\<close> the loop returns from every state, and so does \<^verbatim>\<open>simulated_annealing\<close>
  (which starts at temperature 1000 and cools by 0.99), because each iteration multiplies
  the temperature by the cooling rate. The loop exits as soon as the temperature is at
  most the constant \<open>1\<close>, and runs the body otherwise.
\<close>

theorem annealing_terminates:
  "(0 < c \<and> c < 1 \<longrightarrow> (\<exists>y. sa_loop c inst s = Some y))
   \<and> (\<exists>y. simulated_annealing inst initial_routes num_vehicles g = Some y)
   \<and> (num_val (temperature s) \<le> 1 \<longrightarrow> sa_loop c inst s = Some (Inr s))
   \<and> (1 < num_val (temperature s) \<longrightarrow>
        sa_loop c inst s =
          (case sa_iteration c inst s of Inl e \<Rightarrow> Some (Inl e) | Inr s' \<Rightarrow> sa_loop c inst s'))
   \<and> (sa_iteration c inst s = Inr s' \<longrightarrow>
        num_val (temperature s') = num_val (temperature s) * c)"
proof (intro conjI impI)
  assume "0 < c \<and> c < 1"
  then show "\<exists>y. sa_loop c inst s = Some y" by (simp add: sa_loop_terminates)
next
  show "\<exists>y. simulated_annealing inst initial_routes num_vehicles g = Some y"
  proof (cases "sa_init inst initial_routes num_vehicles g")
    case (Inl e)
    then show ?thesis by (simp add: simulated_annealing_def)
  next
    case (Inr s0)
    have "\<exists>y. sa_loop (99 / 100) inst s0 = Some y" by (rule sa_loop_terminates) simp_all
    then obtain y where "sa_loop (99 / 100) inst s0 = Some y" ..
    with Inr show ?thesis by (cases y) (simp_all add: simulated_annealing_def)
  qed
next
  assume "num_val (temperature s) \<le> 1"
  then show "sa_loop c inst s = Some (Inr s)" by (rule sa_loop_floor)
next
  assume "1 < num_val (temperature s)"
  then show "sa_loop c inst s =
          (case sa_iteration c inst s of Inl e \<Rightarrow> Some (Inl e) | Inr s' \<Rightarrow> sa_loop c inst s')"
    by (rule sa_loop_step)
next
  assume "sa_iteration c inst s = Inr s'"
  then show "num_val (temperature s') = num_val (temperature s) * c"
    by (rule sa_iteration_temperature)
qed

lemma example_candidate:
  "generate_new_solution feasible_routes (\<lambda>_. 0) = Inr ([[0, 2, 4], [0, 3, 1, 4]], \<lambda>_. 0)"
  by (simp add: generate_new_solution_def random_sample2_def random_randint_def rng_next_def
      feasible_routes_def Let_def)

lemma example_probability:
  "to_float t = Inr x \<Longrightarrow> 0 < x \<Longrightarrow>
     acceptance_probability (Finite 149) Infinity t = Inr (Fin 0)"
  by (simp add: acceptance_probability_def int_to_float_small float_div_def)

lemma example_iteration:
  "to_float t = Inr x \<Longrightarrow> 0 < x \<Longrightarrow>
     sa_iteration c example_instance (example_state t) = Inr (example_state (FloatNum (x * c)))"
  by (simp add: sa_iteration_def example_state_def example_candidate example_overload_cost
      random_uniform01_def rng_next_def example_probability cool_def Let_def)

lemma example_loop:
  "0 < c \<Longrightarrow> to_float t = Inr x \<Longrightarrow> x * c ^ n \<le> 1 \<Longrightarrow>
     \<exists>t'. sa_loop c example_instance (example_state t) = Some (Inr (example_state t'))"
proof (induction n arbitrary: t x)
  case 0
  then have "num_val (temperature (example_state t)) \<le> 1"
    by (simp add: example_state_def to_float_num_val)
  from sa_loop_floor [OF this] show ?case by blast
next
  case (Suc n)
  from Suc.prems(2) have val: "num_val (temperature (example_state t)) = x"
    by (simp add: example_state_def to_float_num_val)
  show ?case
  proof (cases "1 < x")
    case False
    with val have "num_val (temperature (example_state t)) \<le> 1" by simp
    from sa_loop_floor [OF this] show ?thesis by blast
  next
    case True
    with val have g: "1 < num_val (temperature (example_state t))" by simp
    from True have pos: "0 < x" by simp
    from Suc.prems(3) have "x * c * c ^ n \<le> 1" by (simp add: mult.assoc)
    from Suc.IH [OF Suc.prems(1) _ this, of "FloatNum (x * c)"] show ?thesis
      by (simp add: sa_loop_step [OF g] example_iteration [OF Suc.prems(2) pos])
  qed
qed

lemma example_init:
  "sa_init example_instance rs nv (\<lambda>_. 0) = Inr (example_state (IntNum 1000))"
  by (simp add: sa_init_def example_feasible_cost example_state_def Let_def)

lemma example_run:
  "simulated_annealing example_instance rs nv (\<lambda>_. 0) = Some (Inr (feasible_routes, Finite 149))"
proof -
  obtain n where n: "(1000 :: real) * (99 / 100) ^ n \<le> 1"
    using cooling_reaches_floor [of "99 / 100" 1000] by auto
  have "to_float (IntNum 1000) = Inr 1000" by (simp add: int_to_float_small)
  from example_loop [OF _ this n] obtain t' where
    "sa_loop (99 / 100) example_instance (example_state (IntNum 1000)) =
       Some (Inr (example_state t'))"
    by auto
  then show ?thesis
    by (simp add: simulated_annealing_def example_init example_state_def)
qed

lemma example_first_iteration:
  "sa_iteration (99 / 100) example_instance (example_state (IntNum 1000)) =
     Inr (example_state (FloatNum 990))"
  using example_iteration [of "IntNum 1000" 1000 "99 / 100"] by (simp add: int_to_float_small)

theorem annealing_terminates_witness:
  "(0 :: real) < 99 / 100 \<and> (99 / 100 :: real) < 1
   \<and> (\<exists>y. sa_loop (99 / 100) example_instance (example_state (IntNum 1000)) = Some y)
   \<and> (\<exists>y. simulated_annealing example_instance exact_routes 2 (\<lambda>_. 0) = Some y)
   \<and> num_val (temperature (example_state (FloatNum 1))) \<le> 1
   \<and> sa_loop (99 / 100) example_instance (example_state (FloatNum 1)) =
        Some (Inr (example_state (FloatNum 1)))
   \<and> 1 < num_val (temperature (example_state (IntNum 1000)))
   \<and> sa_loop (99 / 100) example_instance (example_state (IntNum 1000)) =
        sa_loop (99 / 100) example_instance (example_state (FloatNum 990))
   \<and> sa_iteration (99 / 100) example_instance (example_state (IntNum 1000)) =
        Inr (example_state (FloatNum 990))
   \<and> num_val (temperature (example_state (FloatNum 990))) =
        num_val (temperature (example_state (IntNum 1000))) * (99 / 100)"
proof -
  note hot = annealing_terminates
      [of "99 / 100" example_instance "example_state (IntNum 1000)" exact_routes 2 "\<lambda>_. 0"
        "example_state (FloatNum 990)"]
  note cold = annealing_terminates
      [of "99 / 100" example_instance "example_state (FloatNum 1)" exact_routes 2 "\<lambda>_. 0"
        "example_state (FloatNum 990)"]
  note it = example_first_iteration
  have t1: "num_val (temperature (example_state (FloatNum 1))) \<le> 1"
    and t1000: "1 < num_val (temperature (example_state (IntNum 1000)))"
    by (simp_all add: example_state_def)
  from hot
  have "\<exists>y. sa_loop (99 / 100) example_instance (example_state (IntNum 1000)) = Some y"
    by simp
  moreover from hot have "\<exists>y. simulated_annealing example_instance exact_routes 2 (\<lambda>_. 0) = Some y"
    by simp
  moreover from cold t1
  have "sa_loop (99 / 100) example_instance (example_state (FloatNum 1)) =
      Some (Inr (example_state (FloatNum 1)))"
    by simp
  moreover from hot t1000 it
  have "sa_loop (99 / 100) example_instance (example_state (IntNum 1000)) =
        sa_loop (99 / 100) example_instance (example_state (FloatNum 990))"
    by simp
  moreover from hot it
  have "num_val (temperature (example_state (FloatNum 990))) =
      num_val (temperature (example_state (IntNum 1000))) * (99 / 100)"
    by simp
  ultimately show ?thesis using t1 t1000 it by simp
qed

text \<open>
  Claim C6. The tracked \<^verbatim>\<open>best_cost\<close> never increases: an iteration either leaves the best
  pair alone or replaces it by a candidate of strictly lower cost; from every state the
  loop ends with a best cost no worse than that state's; and the \<^verbatim>\<open>best_cost\<close> that
  \<^verbatim>\<open>simulated_annealing\<close> returns is no worse than the cost of the solution it started
  from (the global \<^verbatim>\<open>feasible_routes\<close>).
\<close>

theorem best_cost_monotone:
  "(sa_iteration c inst s = Inr s1 \<longrightarrow>
      (best_cost s1 = best_cost s \<and> best_routes s1 = best_routes s)
      \<or> (cost_less (best_cost s1) (best_cost s)
          \<and> calculate_cost inst (best_routes s1) = Inr (best_cost s1)))
   \<and> (sa_loop c inst s = Some (Inr s') \<longrightarrow> cost_le (best_cost s') (best_cost s))
   \<and> (simulated_annealing inst initial_routes num_vehicles g = Some (Inr (best, bcost)) \<longrightarrow>
        (\<exists>c0. calculate_cost inst feasible_routes = Inr c0 \<and> cost_le bcost c0))"
proof (intro conjI impI)
  assume "sa_iteration c inst s = Inr s1"
  then show "(best_cost s1 = best_cost s \<and> best_routes s1 = best_routes s)
      \<or> (cost_less (best_cost s1) (best_cost s)
          \<and> calculate_cost inst (best_routes s1) = Inr (best_cost s1))"
    by (rule sa_iteration_best)
next
  assume "sa_loop c inst s = Some (Inr s')"
  from sa_loop_best_cost_aux [OF this] show "cost_le (best_cost s') (best_cost s)" by simp
next
  assume run: "simulated_annealing inst initial_routes num_vehicles g = Some (Inr (best, bcost))"
  then obtain c0 where c0: "calculate_cost inst feasible_routes = Inr c0"
    by (cases "calculate_cost inst feasible_routes")
      (auto simp: simulated_annealing_def sa_init_def Let_def)
  define s0 where "s0 = \<lparr>current_routes = feasible_routes, best_routes = feasible_routes,
      best_cost = c0, temperature = IntNum 1000, rng_state = g\<rparr>"
  from c0 have init: "sa_init inst initial_routes num_vehicles g = Inr s0"
    by (simp add: sa_init_def s0_def Let_def)
  with run obtain sf where loop: "sa_loop (99 / 100) inst s0 = Some (Inr sf)"
    and res: "bcost = best_cost sf"
    by (auto simp: simulated_annealing_def split: option.splits sum.splits)
  from sa_loop_best_cost_aux [OF loop] have "cost_le (best_cost sf) (best_cost s0)" by simp
  with res c0 show "\<exists>c0. calculate_cost inst feasible_routes = Inr c0 \<and> cost_le bcost c0"
    by (simp add: s0_def)
qed

lemma example_last_iteration:
  "sa_loop (99 / 100) example_instance (example_state (FloatNum (101 / 100))) =
     Some (Inr (example_state (FloatNum (9999 / 10000))))"
proof -
  have hot: "1 < num_val (temperature (example_state (FloatNum (101 / 100))))"
    and cold: "num_val (temperature (example_state (FloatNum (9999 / 10000)))) \<le> 1"
    by (simp_all add: example_state_def)
  show ?thesis
    using example_iteration [of "FloatNum (101 / 100)" "101 / 100" "99 / 100"]
    by (simp add: sa_loop_step [OF hot] sa_loop_floor [OF cold])
qed

lemma example_improving_candidate:
  "generate_new_solution [[0, 2, 4], [0, 1, 3, 4]] (\<lambda>_. 0) = Inr (exact_routes, \<lambda>_. 0)"
  by (simp add: generate_new_solution_def random_sample2_def random_randint_def rng_next_def
      exact_routes_def Let_def)

lemma example_improving_iteration:
  "sa_iteration (99 / 100) example_instance
     \<lparr>current_routes = [[0, 2, 4], [0, 1, 3, 4]], best_routes = feasible_routes,
      best_cost = Finite 149, temperature = FloatNum 500, rng_state = (\<lambda>_. 0)\<rparr> =
   Inr \<lparr>current_routes = exact_routes, best_routes = exact_routes,
        best_cost = Finite 128, temperature = FloatNum 495, rng_state = (\<lambda>_. 0)\<rparr>"
  by (simp add: sa_iteration_def example_improving_candidate example_exact_cost cool_def Let_def)

theorem best_cost_monotone_witness:
  "sa_iteration (99 / 100) example_instance (example_state (FloatNum (101 / 100))) =
     Inr (example_state (FloatNum (9999 / 10000)))
   \<and> best_cost (example_state (FloatNum (9999 / 10000))) =
       best_cost (example_state (FloatNum (101 / 100)))
   \<and> sa_loop (99 / 100) example_instance (example_state (FloatNum (101 / 100))) =
       Some (Inr (example_state (FloatNum (9999 / 10000))))
   \<and> cost_le (best_cost (example_state (FloatNum (9999 / 10000))))
       (best_cost (example_state (FloatNum (101 / 100))))
   \<and> simulated_annealing example_instance exact_routes 2 (\<lambda>_. 0) =
       Some (Inr (feasible_routes, Finite 149))
   \<and> calculate_cost example_instance feasible_routes = Inr (Finite 149)
   \<and> cost_le (Finite 149) (Finite 149)
   \<and> sa_iteration (99 / 100) example_instance
       \<lparr>current_routes = [[0, 2, 4], [0, 1, 3, 4]], best_routes = feasible_routes,
        best_cost = Finite 149, temperature = FloatNum 500, rng_state = (\<lambda>_. 0)\<rparr> =
     Inr \<lparr>current_routes = exact_routes, best_routes = exact_routes,
          best_cost = Finite 128, temperature = FloatNum 495, rng_state = (\<lambda>_. 0)\<rparr>
   \<and> cost_less (Finite 128) (Finite 149)
   \<and> calculate_cost example_instance exact_routes = Inr (Finite 128)"
proof -
  note mono = best_cost_monotone
      [of "99 / 100" example_instance "example_state (FloatNum (101 / 100))"
        "example_state (FloatNum (9999 / 10000))" "example_state (FloatNum (9999 / 10000))"
        exact_routes 2 "\<lambda>_. 0" feasible_routes "Finite 149"]
  note improving = best_cost_monotone
      [of "99 / 100" example_instance
        "\<lparr>current_routes = [[0, 2, 4], [0, 1, 3, 4]], best_routes = feasible_routes,
          best_cost = Finite 149, temperature = FloatNum 500, rng_state = (\<lambda>_. 0)\<rparr>"
        "\<lparr>current_routes = exact_routes, best_routes = exact_routes,
          best_cost = Finite 128, temperature = FloatNum 495, rng_state = (\<lambda>_. 0)\<rparr>"]
  have it: "sa_iteration (99 / 100) example_instance (example_state (FloatNum (101 / 100))) =
     Inr (example_state (FloatNum (9999 / 10000)))"
    using example_iteration [of "FloatNum (101 / 100)" "101 / 100" "99 / 100"] by simp
  from mono example_last_iteration
  have "cost_le (best_cost (example_state (FloatNum (9999 / 10000))))
      (best_cost (example_state (FloatNum (101 / 100))))"
    by simp
  moreover from mono example_run [of exact_routes 2] example_feasible_cost
  have "cost_le (Finite 149) (Finite 149)" by simp
  moreover have "best_cost (example_state (FloatNum (9999 / 10000))) =
      best_cost (example_state (FloatNum (101 / 100)))"
    by (simp add: example_state_def)
  moreover from improving example_improving_iteration
  have "cost_less (Finite 128) (Finite 149)
      \<and> calculate_cost example_instance exact_routes = Inr (Finite 128)"
    by simp
  ultimately show ?thesis
    using it example_last_iteration example_run [of exact_routes 2] example_feasible_cost
      example_improving_iteration
    by simp
qed

lemma unit_fraction_range:
  fixes m :: nat
  assumes "0 < m"
  shows "0 \<le> real (r mod m) / real m \<and> real (r mod m) / real m < 1"
proof -
  from assms have "r mod m < m" by simp
  then have "real (r mod m) < real m" by simp
  with assms show ?thesis by simp
qed

lemma random_uniform01_range:
  assumes "random_uniform01 g = (u, g')"
  shows "0 \<le> u \<and> u < 1"
proof -
  have "random_uniform01 g = (real (g 0 mod 2 ^ 53) / real (2 ^ 53), \<lambda>n. g (Suc n))"
    by (simp add: random_uniform01_def rng_next_def)
  with assms have "u = real (g 0 mod 2 ^ 53) / real (2 ^ 53)" by (simp only: prod.inject)
  moreover have "(0 :: nat) < 2 ^ 53" by simp
  ultimately show ?thesis using unit_fraction_range [of "2 ^ 53" "g 0"] by (simp only:)
qed

lemma sa_init_temperature:
  "sa_init inst initial_routes num_vehicles g = Inr s0 \<Longrightarrow> to_float (temperature s0) = Inr 1000"
  by (auto simp: sa_init_def Let_def int_to_float_small split: sum.splits)

lemma sa_iteration_float:
  "sa_iteration c inst s = Inr s' \<Longrightarrow> \<exists>x. to_float (temperature s') = Inr x"
  by (drule sa_iteration_cool) (auto dest: cool_value)

lemma infeasible_probability:
  assumes "to_float t = Inr x" and "0 < x"
  shows "\<bar>bc\<bar> < float_bound \<Longrightarrow> acceptance_probability (Finite bc) Infinity t = Inr (Fin 0)"
    and "float_bound \<le> \<bar>bc\<bar> \<Longrightarrow> acceptance_probability (Finite bc) Infinity t = Inl OverflowError"
  using assms by (simp_all add: acceptance_probability_def int_to_float_def float_div_def)

text \<open>
  Claim C8. Take an iteration of the loop with a finite \<^verbatim>\<open>best_cost\<close>, at a temperature
  above \<open>1\<close> that is a float or an int that converts to one (the temperature of every
  state of a run is: it is the int 1000 at the start and a float after every pass), and
  a candidate that evaluates to \<^verbatim>\<open>float('inf')\<close>. The candidate is never accepted: it is
  not strictly cheaper than the best, and every state the iteration can return has the
  current solution, the best solution and its cost as they were. When the magnitude of
  \<^verbatim>\<open>best_cost\<close> is below \<^verbatim>\<open>2**1024 - 2**970\<close>, the acceptance probability is
  \<open>exp(-inf) = 0\<close>, below which no uniform draw lies, and the iteration returns such a
  state. From that bound on \<^verbatim>\<open>best_cost - cost\<close> cannot convert \<^verbatim>\<open>best_cost\<close> to a float
  and the iteration ends with \<^verbatim>\<open>OverflowError\<close>, again without accepting the candidate.
\<close>

theorem infeasible_candidate_rejected:
  assumes best: "best_cost s = Finite bc"
    and temp: "to_float (temperature s) = Inr t" and guard: "1 < t"
    and gen: "generate_new_solution (current_routes s) (rng_state s) = Inr (new_routes, g1)"
    and inf: "calculate_cost inst new_routes = Inr Infinity"
  shows "\<not> cost_less Infinity (best_cost s)
     \<and> (\<forall>s'. sa_iteration c inst s = Inr s' \<longrightarrow>
           current_routes s' = current_routes s \<and> best_routes s' = best_routes s
           \<and> best_cost s' = best_cost s)
     \<and> (\<bar>bc\<bar> < float_bound \<longrightarrow>
           acceptance_probability (best_cost s) Infinity (temperature s) = Inr (Fin 0)
           \<and> (\<exists>s'. sa_iteration c inst s = Inr s'))
     \<and> (float_bound \<le> \<bar>bc\<bar> \<longrightarrow> sa_iteration c inst s = Inl OverflowError)
     \<and> (\<forall>r n g0 s0. sa_init inst r n g0 = Inr s0 \<longrightarrow> to_float (temperature s0) = Inr 1000)
     \<and> (\<forall>k s1 s2. sa_iteration k inst s1 = Inr s2 \<longrightarrow>
           (\<exists>x. to_float (temperature s2) = Inr x))"
proof -
  obtain u g2 where un: "random_uniform01 g1 = (u, g2)" by (cases "random_uniform01 g1")
  from random_uniform01_range [OF un] have u: "\<not> u < 0" by simp
  from guard have pos: "0 < t" by simp
  note prob = infeasible_probability [OF temp pos, of bc]
  have small: "acceptance_probability (best_cost s) Infinity (temperature s) = Inr (Fin 0)
      \<and> sa_iteration c inst s = Inr (s\<lparr>temperature := FloatNum (t * c), rng_state := g2\<rparr>)"
    if "\<bar>bc\<bar> < float_bound"
    using that prob(1) best temp gen inf un u
    by (simp add: sa_iteration_def cool_def Let_def)
  have large: "sa_iteration c inst s = Inl OverflowError" if "float_bound \<le> \<bar>bc\<bar>"
    using that prob(2) best gen inf un
    by (simp add: sa_iteration_def Let_def)
  have unchanged: "current_routes s' = current_routes s \<and> best_routes s' = best_routes s
      \<and> best_cost s' = best_cost s" if "sa_iteration c inst s = Inr s'" for s'
  proof (cases "\<bar>bc\<bar> < float_bound")
    case True
    from small [OF True] that show ?thesis by auto
  next
    case False
    then have "float_bound \<le> \<bar>bc\<bar>" by simp
    from large [OF this] that show ?thesis by simp
  qed
  from best have "\<not> cost_less Infinity (best_cost s)" by simp
  moreover from unchanged
  have "\<forall>s'. sa_iteration c inst s = Inr s' \<longrightarrow>
      current_routes s' = current_routes s \<and> best_routes s' = best_routes s
      \<and> best_cost s' = best_cost s"
    by blast
  moreover from small
  have "\<bar>bc\<bar> < float_bound \<longrightarrow>
      acceptance_probability (best_cost s) Infinity (temperature s) = Inr (Fin 0)
      \<and> (\<exists>s'. sa_iteration c inst s = Inr s')"
    by blast
  moreover from large have "float_bound \<le> \<bar>bc\<bar> \<longrightarrow> sa_iteration c inst s = Inl OverflowError"
    by blast
  moreover have "\<forall>r n g0 s0. sa_init inst r n g0 = Inr s0 \<longrightarrow>
      to_float (temperature s0) = Inr 1000"
    using sa_init_temperature by blast
  moreover have "\<forall>k s1 s2. sa_iteration k inst s1 = Inr s2 \<longrightarrow>
      (\<exists>x. to_float (temperature s2) = Inr x)"
    using sa_iteration_float by blast
  ultimately show ?thesis by (intro conjI)
qed

theorem infeasible_candidate_rejected_witness:
  "best_cost (example_state (IntNum 1000)) = Finite 149
   \<and> to_float (temperature (example_state (IntNum 1000))) = Inr 1000
   \<and> (1 :: real) < 1000
   \<and> generate_new_solution (current_routes (example_state (IntNum 1000)))
        (rng_state (example_state (IntNum 1000))) = Inr ([[0, 2, 4], [0, 3, 1, 4]], \<lambda>_. 0)
   \<and> calculate_cost example_instance [[0, 2, 4], [0, 3, 1, 4]] = Inr Infinity
   \<and> \<bar>149\<bar> < float_bound
   \<and> acceptance_probability (best_cost (example_state (IntNum 1000))) Infinity
        (temperature (example_state (IntNum 1000))) = Inr (Fin 0)
   \<and> sa_iteration (99 / 100) example_instance (example_state (IntNum 1000)) =
        Inr (example_state (FloatNum 990))
   \<and> current_routes (example_state (FloatNum 990)) = current_routes (example_state (IntNum 1000))
   \<and> best_routes (example_state (FloatNum 990)) = best_routes (example_state (IntNum 1000))
   \<and> best_cost (example_state (FloatNum 990)) = best_cost (example_state (IntNum 1000))
   \<and> to_float (temperature (example_state (FloatNum 990))) = Inr 990
   \<and> float_bound \<le> \<bar>2 ^ 1024\<bar>
   \<and> sa_iteration (99 / 100) example_instance
        ((example_state (IntNum 1000))\<lparr>best_cost := Finite (2 ^ 1024)\<rparr>) = Inl OverflowError"
proof -
  let ?s = "example_state (IntNum 1000)"
  let ?h = "(example_state (IntNum 1000))\<lparr>best_cost := Finite (2 ^ 1024)\<rparr>"
  have h1: "best_cost ?s = Finite 149"
    and h2: "to_float (temperature ?s) = Inr 1000"
    and h3: "(1 :: real) < 1000"
    and h4: "generate_new_solution (current_routes ?s) (rng_state ?s) =
        Inr ([[0, 2, 4], [0, 3, 1, 4]], \<lambda>_. 0)"
    by (simp_all add: example_state_def example_candidate int_to_float_small)
  have k1: "best_cost ?h = Finite (2 ^ 1024)"
    and k2: "to_float (temperature ?h) = Inr 1000"
    and k4: "generate_new_solution (current_routes ?h) (rng_state ?h) =
        Inr ([[0, 2, 4], [0, 3, 1, 4]], \<lambda>_. 0)"
    by (simp_all add: example_state_def example_candidate int_to_float_small)
  have small: "\<bar>149\<bar> < float_bound" and large: "float_bound \<le> \<bar>2 ^ 1024\<bar>"
    by (simp_all add: float_bound_def)
  note usual = infeasible_candidate_rejected [OF h1 h2 h3 h4 example_overload_cost, of "99 / 100"]
  note huge = infeasible_candidate_rejected [OF k1 k2 h3 k4 example_overload_cost, of "99 / 100"]
  from usual small
  have "acceptance_probability (best_cost ?s) Infinity (temperature ?s) = Inr (Fin 0)"
    by blast
  moreover from usual example_first_iteration
  have "current_routes (example_state (FloatNum 990)) = current_routes ?s
      \<and> best_routes (example_state (FloatNum 990)) = best_routes ?s
      \<and> best_cost (example_state (FloatNum 990)) = best_cost ?s
      \<and> (\<exists>x. to_float (temperature (example_state (FloatNum 990))) = Inr x)"
    by blast
  moreover from huge large have "sa_iteration (99 / 100) example_instance ?h = Inl OverflowError"
    by blast
  moreover have "to_float (temperature (example_state (FloatNum 990))) = Inr 990"
    by (simp add: example_state_def)
  ultimately show ?thesis
    using h1 h2 h3 h4 example_overload_cost small large example_first_iteration by simp
qed

section \<open>The move operator on the store\<close>

lemma upt_shift: "[k ..< k + Suc n] = k # [Suc k ..< Suc k + n]"
proof -
  have "k < k + Suc n" by simp
  from upt_conv_Cons [OF this] show ?thesis by (simp only: add_Suc add_Suc_right)
qed

lemma copy_routes_closed:
  "\<forall>p \<in> set ps. p < length h \<Longrightarrow>
     copy_routes h ps = ([length h ..< length h + length ps], h @ map (\<lambda>p. h ! p) ps)"
proof (induction ps arbitrary: h)
  case Nil
  then show ?case by simp
next
  case (Cons p ps)
  let ?h1 = "h @ [h ! p]"
  from Cons.prems have lt: "\<forall>p' \<in> set ps. p' < length ?h1" by auto
  from Cons.prems have same: "map (\<lambda>p'. ?h1 ! p') ps = map (\<lambda>p'. h ! p') ps"
    by (auto simp: nth_append)
  from Cons.IH [OF lt] have ih: "copy_routes ?h1 ps =
      ([length ?h1 ..< length ?h1 + length ps], ?h1 @ map (\<lambda>p'. h ! p') ps)"
    by (simp only: same)
  have u: "[length h ..< length h + length (p # ps)] =
      length h # [length ?h1 ..< length ?h1 + length ps]"
    using upt_shift [of "length h" "length ps"] by (simp only: length_Cons length_append list.size add_Suc_right add_0_right add_Suc One_nat_def)
  show ?case
    unfolding copy_routes.simps Let_def ih prod.case u by simp
qed

lemma generate_new_solution_swap:
  assumes len: "\<forall>r \<in> set rs. 3 \<le> length r"
    and run: "generate_new_solution rs g = Inr (new, g')"
  shows "\<exists>v1 v2 i j. v1 < length rs \<and> v2 < length rs \<and> v1 \<noteq> v2
      \<and> 1 \<le> i \<and> i + 1 < length (rs ! v1) \<and> 1 \<le> j \<and> j + 1 < length (rs ! v2)
      \<and> new = rs[v1 := (rs ! v1)[i := rs ! v2 ! j], v2 := (rs ! v2)[j := rs ! v1 ! i]]"
proof -
  from run obtain v1 v2 g1 where sm: "random_sample2 (length rs) g = Inr ((v1, v2), g1)"
    by (cases "random_sample2 (length rs) g") (auto simp: generate_new_solution_def)
  from random_sample2_range [OF sm] have v: "v1 < length rs" "v2 < length rs" "v1 \<noteq> v2"
    by simp_all
  with len have l1: "3 \<le> length (rs ! v1)" and l2: "3 \<le> length (rs ! v2)" by simp_all
  then have ne: "rs ! v1 \<noteq> []" "rs ! v2 \<noteq> []" by auto
  from run sm ne obtain i g2 where
    ri: "random_randint 1 (int (length (rs ! v1)) - 2) g1 = Inr (i, g2)"
    by (cases "random_randint 1 (int (length (rs ! v1)) - 2) g1")
      (auto simp: generate_new_solution_def)
  from run sm ne ri obtain j g3 where
    rj: "random_randint 1 (int (length (rs ! v2)) - 2) g2 = Inr (j, g3)"
    by (cases "random_randint 1 (int (length (rs ! v2)) - 2) g2")
      (auto simp: generate_new_solution_def)
  from random_randint_range [OF ri] have i: "1 \<le> nat i" "nat i + 1 < length (rs ! v1)"
    by auto
  from random_randint_range [OF rj] have j: "1 \<le> nat j" "nat j + 1 < length (rs ! v2)"
    by auto
  from run sm ne ri rj v
  have "new = rs[v1 := (rs ! v1)[nat i := rs ! v2 ! nat j],
                 v2 := (rs ! v2)[nat j := rs ! v1 ! nat i]]"
    by (simp add: generate_new_solution_def Let_def)
  with v i j show ?thesis by blast
qed

lemma generate_new_solution_returns:
  assumes len: "\<forall>r \<in> set rs. 3 \<le> length r" and two: "2 \<le> length rs"
  shows "\<exists>new g'. generate_new_solution rs g = Inr (new, g')"
proof -
  from random_sample2_returns [OF two] obtain v1 v2 g1 where
    sm: "random_sample2 (length rs) g = Inr ((v1, v2), g1)" by blast
  from random_sample2_range [OF sm] len
  have l1: "3 \<le> length (rs ! v1)" and l2: "3 \<le> length (rs ! v2)" by simp_all
  then have ne: "rs ! v1 \<noteq> []" "rs ! v2 \<noteq> []" by auto
  from l1 obtain i g2 where
    ri: "random_randint 1 (int (length (rs ! v1)) - 2) g1 = Inr (i, g2)"
    using random_randint_returns [of 1 "int (length (rs ! v1)) - 2" g1] by auto
  from l2 obtain j g3 where
    rj: "random_randint 1 (int (length (rs ! v2)) - 2) g2 = Inr (j, g3)"
    using random_randint_returns [of 1 "int (length (rs ! v2)) - 2" g2] by auto
  from sm ne ri rj show ?thesis by (simp add: generate_new_solution_def Let_def)
qed

lemma deref_fresh:
  "deref (h @ new) [length h ..< length h + length new] = new"
  by (rule nth_equalityI) (simp_all add: deref_def nth_append)

lemma store_update_fresh:
  "(h @ new)[length h + v := r] = h @ new[v := r]"
  by (simp add: list_update_append)

lemma generate_new_solution_st_refines:
  assumes wf: "\<forall>p \<in> set rs. p < length h"
  shows "generate_new_solution_st h rs g =
     (case generate_new_solution (deref h rs) g of
        Inl e \<Rightarrow> Inl e
      | Inr (new, g') \<Rightarrow> Inr ([length h ..< length h + length rs], h @ new, g'))"
proof -
  define old where "old = deref h rs"
  define nr where "nr = [length h ..< length h + length rs]"
  have lo: "length old = length rs" and ln: "length nr = length rs"
    by (simp_all add: old_def nr_def deref_def)
  from copy_routes_closed [OF wf] have cr: "copy_routes h rs = (nr, h @ old)"
    by (simp add: nr_def old_def deref_def)
  have at: "nr ! v = length h + v" if "v < length rs" for v
    using that by (simp add: nr_def)
  show ?thesis
  proof (cases "random_sample2 (length rs) g")
    case (Inl e)
    then show ?thesis
      by (simp add: generate_new_solution_st_def generate_new_solution_def cr ln lo
          old_def [symmetric])
  next
    case (Inr res)
    then obtain v1 v2 g1 where sm: "random_sample2 (length rs) g = Inr ((v1, v2), g1)"
      by (cases res) auto
    from random_sample2_range [OF sm] have v: "v1 < length rs" "v2 < length rs" "v1 \<noteq> v2"
      by simp_all
    have r1: "(h @ old) ! (length h + v1) = old ! v1"
      and r2: "(h @ old) ! (length h + v2) = old ! v2"
      by simp_all
    let ?P = "old ! v1 \<noteq> [] \<and> old ! v2 \<noteq> []"
    show ?thesis
    proof (cases ?P)
      case False
      with sm v show ?thesis
        by (auto simp: generate_new_solution_st_def generate_new_solution_def cr ln lo
            old_def [symmetric] nr_def [symmetric] at r1 r2 Let_def)
    next
      case True
      show ?thesis
      proof (cases "random_randint 1 (int (length (old ! v1)) - 2) g1")
        case (Inl e)
        with sm v True show ?thesis
          by (simp add: generate_new_solution_st_def generate_new_solution_def cr ln lo
              old_def [symmetric] at r1 r2 Let_def)
      next
        case (Inr ri)
        then obtain i g2 where ri: "random_randint 1 (int (length (old ! v1)) - 2) g1 = Inr (i, g2)"
          by (cases ri) auto
        show ?thesis
        proof (cases "random_randint 1 (int (length (old ! v2)) - 2) g2")
          case (Inl e)
          with sm v True ri show ?thesis
            by (simp add: generate_new_solution_st_def generate_new_solution_def cr ln lo
                old_def [symmetric] at r1 r2 Let_def)
        next
          case (Inr rj)
          then obtain j g3 where
            rj: "random_randint 1 (int (length (old ! v2)) - 2) g2 = Inr (j, g3)"
            by (cases rj) auto
          have u2: "(h @ old[v1 := (old ! v1)[nat i := old ! v2 ! nat j]]) ! (length h + v2)
              = old ! v2"
            using v by simp
          from sm v True ri rj show ?thesis
            by (simp add: generate_new_solution_st_def generate_new_solution_def cr ln lo
                old_def [symmetric] nr_def [symmetric] at r1 r2 u2 store_update_fresh Let_def)
        qed
      qed
    qed
  qed
qed

lemma swap_position_frame:
  assumes "1 \<le> i" "i + 1 < length xs"
  shows "length (xs[i := x]) = length xs \<and> hd (xs[i := x]) = hd xs
     \<and> last (xs[i := x]) = last xs \<and> (\<forall>n. n \<noteq> i \<longrightarrow> xs[i := x] ! n = xs ! n)
     \<and> xs[i := x] ! i = x"
proof -
  from assms have ne: "xs \<noteq> []" "xs[i := x] \<noteq> []" by auto
  from assms have "hd (xs[i := x]) = hd xs"
    by (simp add: hd_conv_nth ne)
  moreover from assms have "last (xs[i := x]) = last xs"
    by (simp add: last_conv_nth ne)
  ultimately show ?thesis using assms by simp
qed

lemma generate_new_solution_st_returns:
  assumes wf: "\<forall>p \<in> set rs. p < length h"
    and interior: "\<forall>p \<in> set rs. 3 \<le> length (h ! p)"
    and two: "2 \<le> length rs"
  shows "\<exists>nr h' g'. generate_new_solution_st h rs g = Inr (nr, h', g')"
proof -
  from interior have len: "\<forall>r \<in> set (deref h rs). 3 \<le> length r" by (simp add: deref_def)
  from two have "2 \<le> length (deref h rs)" by (simp add: deref_def)
  from generate_new_solution_returns [OF len this, of g]
    generate_new_solution_st_refines [OF wf, of g]
  show ?thesis by auto
qed

lemma generate_new_solution_st_frame:
  assumes wf: "\<forall>p \<in> set rs. p < length h"
    and interior: "\<forall>p \<in> set rs. 3 \<le> length (h ! p)"
    and run: "generate_new_solution_st h rs g = Inr (nr, h', g')"
  shows "(\<forall>p < length h. h' ! p = h ! p)
     \<and> deref h' rs = deref h rs
     \<and> length (deref h' nr) = length (deref h rs)
     \<and> (\<forall>k < length rs.
           length (deref h' nr ! k) = length (deref h rs ! k)
           \<and> hd (deref h' nr ! k) = hd (deref h rs ! k)
           \<and> last (deref h' nr ! k) = last (deref h rs ! k))
     \<and> (\<exists>v1 v2 i j. v1 < length rs \<and> v2 < length rs \<and> v1 \<noteq> v2
           \<and> 1 \<le> i \<and> i + 1 < length (deref h rs ! v1)
           \<and> 1 \<le> j \<and> j + 1 < length (deref h rs ! v2)
           \<and> (\<forall>k < length rs. k \<noteq> v1 \<and> k \<noteq> v2 \<longrightarrow> deref h' nr ! k = deref h rs ! k)
           \<and> (\<forall>n. n \<noteq> i \<longrightarrow> deref h' nr ! v1 ! n = deref h rs ! v1 ! n)
           \<and> (\<forall>n. n \<noteq> j \<longrightarrow> deref h' nr ! v2 ! n = deref h rs ! v2 ! n)
           \<and> deref h' nr ! v1 ! i = deref h rs ! v2 ! j
           \<and> deref h' nr ! v2 ! j = deref h rs ! v1 ! i)"
proof -
  define old where "old = deref h rs"
  have lo: "length old = length rs" by (simp add: old_def deref_def)
  from interior have len: "\<forall>r \<in> set old. 3 \<le> length r" by (simp add: old_def deref_def)
  note ref = generate_new_solution_st_refines [OF wf, of g, folded old_def]
  from run ref obtain new where pure: "generate_new_solution old g = Inr (new, g')"
    and nr: "nr = [length h ..< length h + length rs]" and h': "h' = h @ new"
    by (auto split: sum.splits)
  from generate_new_solution_swap [OF len pure] obtain v1 v2 i j where
    v: "v1 < length old" "v2 < length old" "v1 \<noteq> v2"
    and i: "1 \<le> i" "i + 1 < length (old ! v1)"
    and j: "1 \<le> j" "j + 1 < length (old ! v2)"
    and new: "new = old[v1 := (old ! v1)[i := old ! v2 ! j], v2 := (old ! v2)[j := old ! v1 ! i]]"
    by blast
  from new have ln: "length new = length rs" by (simp add: lo)
  have dn: "deref h' nr = new"
    using deref_fresh [of h new] by (simp add: nr h' ln)
  have frame: "\<forall>p < length h. h' ! p = h ! p" by (simp add: h' nth_append)
  with wf have input: "deref h' rs = deref h rs" by (simp add: deref_def)
  have same_len: "length (deref h' nr) = length (deref h rs)"
    by (simp add: dn ln old_def [symmetric] lo)
  note f1 = swap_position_frame [OF i, of "old ! v2 ! j"]
  note f2 = swap_position_frame [OF j, of "old ! v1 ! i"]
  have n1: "new ! v1 = (old ! v1)[i := old ! v2 ! j]"
    and n2: "new ! v2 = (old ! v2)[j := old ! v1 ! i]"
    and nk: "\<And>k. k \<noteq> v1 \<Longrightarrow> k \<noteq> v2 \<Longrightarrow> new ! k = old ! k"
    using v by (simp_all add: new)
  have ends: "\<forall>k < length rs.
      length (deref h' nr ! k) = length (deref h rs ! k)
      \<and> hd (deref h' nr ! k) = hd (deref h rs ! k)
      \<and> last (deref h' nr ! k) = last (deref h rs ! k)"
  proof (intro allI impI)
    fix k assume "k < length rs"
    consider "k = v1" | "k = v2" | "k \<noteq> v1" "k \<noteq> v2" by blast
    then show "length (deref h' nr ! k) = length (deref h rs ! k)
      \<and> hd (deref h' nr ! k) = hd (deref h rs ! k)
      \<and> last (deref h' nr ! k) = last (deref h rs ! k)"
    proof cases
      case 1
      with f1 show ?thesis by (simp add: dn old_def [symmetric] n1)
    next
      case 2
      with f2 show ?thesis by (simp add: dn old_def [symmetric] n2)
    next
      case 3
      then show ?thesis by (simp add: dn old_def [symmetric] nk)
    qed
  qed
  have "v1 < length rs \<and> v2 < length rs \<and> v1 \<noteq> v2
      \<and> 1 \<le> i \<and> i + 1 < length (deref h rs ! v1)
      \<and> 1 \<le> j \<and> j + 1 < length (deref h rs ! v2)
      \<and> (\<forall>k < length rs. k \<noteq> v1 \<and> k \<noteq> v2 \<longrightarrow> deref h' nr ! k = deref h rs ! k)
      \<and> (\<forall>n. n \<noteq> i \<longrightarrow> deref h' nr ! v1 ! n = deref h rs ! v1 ! n)
      \<and> (\<forall>n. n \<noteq> j \<longrightarrow> deref h' nr ! v2 ! n = deref h rs ! v2 ! n)
      \<and> deref h' nr ! v1 ! i = deref h rs ! v2 ! j
      \<and> deref h' nr ! v2 ! j = deref h rs ! v1 ! i"
    using v i j f1 f2 by (simp add: dn old_def [symmetric] lo n1 n2 nk)
  then have moved: "\<exists>v1 v2 i j. v1 < length rs \<and> v2 < length rs \<and> v1 \<noteq> v2
      \<and> 1 \<le> i \<and> i + 1 < length (deref h rs ! v1)
      \<and> 1 \<le> j \<and> j + 1 < length (deref h rs ! v2)
      \<and> (\<forall>k < length rs. k \<noteq> v1 \<and> k \<noteq> v2 \<longrightarrow> deref h' nr ! k = deref h rs ! k)
      \<and> (\<forall>n. n \<noteq> i \<longrightarrow> deref h' nr ! v1 ! n = deref h rs ! v1 ! n)
      \<and> (\<forall>n. n \<noteq> j \<longrightarrow> deref h' nr ! v2 ! n = deref h rs ! v2 ! n)
      \<and> deref h' nr ! v1 ! i = deref h rs ! v2 ! j
      \<and> deref h' nr ! v2 ! j = deref h rs ! v1 ! i"
    by blast
  from frame input same_len ends moved show ?thesis by (intro conjI)
qed

text \<open>
  Claim C5. Take a solution in the store whose routes all have an interior node (at least
  three nodes). With at least two routes \<^verbatim>\<open>generate_new_solution\<close> returns, and whenever
  it returns: every route object that existed before the call is unchanged, so the input
  solution reads as before; the new solution has as many routes as the input, each of the
  same length and with the same first and last node as the corresponding input route; and
  there are two distinct routes \<open>v1\<close>, \<open>v2\<close> and interior positions \<open>i\<close>, \<open>j\<close> such that
  all other routes are equal to the input's, route \<open>v1\<close> differs from the input's at most
  at position \<open>i\<close> and route \<open>v2\<close> at most at position \<open>j\<close>, where the two nodes have been
  exchanged.
\<close>

theorem depot_preservation:
  assumes wf: "\<forall>p \<in> set rs. p < length h"
    and interior: "\<forall>p \<in> set rs. 3 \<le> length (h ! p)"
  shows "(2 \<le> length rs \<longrightarrow> (\<exists>nr h' g'. generate_new_solution_st h rs g = Inr (nr, h', g')))
     \<and> (\<forall>nr h' g'. generate_new_solution_st h rs g = Inr (nr, h', g') \<longrightarrow>
     (\<forall>p < length h. h' ! p = h ! p)
     \<and> deref h' rs = deref h rs
     \<and> length (deref h' nr) = length (deref h rs)
     \<and> (\<forall>k < length rs.
           length (deref h' nr ! k) = length (deref h rs ! k)
           \<and> hd (deref h' nr ! k) = hd (deref h rs ! k)
           \<and> last (deref h' nr ! k) = last (deref h rs ! k))
     \<and> (\<exists>v1 v2 i j. v1 < length rs \<and> v2 < length rs \<and> v1 \<noteq> v2
           \<and> 1 \<le> i \<and> i + 1 < length (deref h rs ! v1)
           \<and> 1 \<le> j \<and> j + 1 < length (deref h rs ! v2)
           \<and> (\<forall>k < length rs. k \<noteq> v1 \<and> k \<noteq> v2 \<longrightarrow> deref h' nr ! k = deref h rs ! k)
           \<and> (\<forall>n. n \<noteq> i \<longrightarrow> deref h' nr ! v1 ! n = deref h rs ! v1 ! n)
           \<and> (\<forall>n. n \<noteq> j \<longrightarrow> deref h' nr ! v2 ! n = deref h rs ! v2 ! n)
           \<and> deref h' nr ! v1 ! i = deref h rs ! v2 ! j
           \<and> deref h' nr ! v2 ! j = deref h rs ! v1 ! i))"
proof (rule conjI)
  show "2 \<le> length rs \<longrightarrow> (\<exists>nr h' g'. generate_new_solution_st h rs g = Inr (nr, h', g'))"
    using generate_new_solution_st_returns [OF wf interior] by blast
next
  show "\<forall>nr h' g'. generate_new_solution_st h rs g = Inr (nr, h', g') \<longrightarrow>
     (\<forall>p < length h. h' ! p = h ! p)
     \<and> deref h' rs = deref h rs
     \<and> length (deref h' nr) = length (deref h rs)
     \<and> (\<forall>k < length rs.
           length (deref h' nr ! k) = length (deref h rs ! k)
           \<and> hd (deref h' nr ! k) = hd (deref h rs ! k)
           \<and> last (deref h' nr ! k) = last (deref h rs ! k))
     \<and> (\<exists>v1 v2 i j. v1 < length rs \<and> v2 < length rs \<and> v1 \<noteq> v2
           \<and> 1 \<le> i \<and> i + 1 < length (deref h rs ! v1)
           \<and> 1 \<le> j \<and> j + 1 < length (deref h rs ! v2)
           \<and> (\<forall>k < length rs. k \<noteq> v1 \<and> k \<noteq> v2 \<longrightarrow> deref h' nr ! k = deref h rs ! k)
           \<and> (\<forall>n. n \<noteq> i \<longrightarrow> deref h' nr ! v1 ! n = deref h rs ! v1 ! n)
           \<and> (\<forall>n. n \<noteq> j \<longrightarrow> deref h' nr ! v2 ! n = deref h rs ! v2 ! n)
           \<and> deref h' nr ! v1 ! i = deref h rs ! v2 ! j
           \<and> deref h' nr ! v2 ! j = deref h rs ! v1 ! i)"
  proof (intro allI impI)
    fix nr h' g'
    assume "generate_new_solution_st h rs g = Inr (nr, h', g')"
    then show "(\<forall>p < length h. h' ! p = h ! p)
     \<and> deref h' rs = deref h rs
     \<and> length (deref h' nr) = length (deref h rs)
     \<and> (\<forall>k < length rs.
           length (deref h' nr ! k) = length (deref h rs ! k)
           \<and> hd (deref h' nr ! k) = hd (deref h rs ! k)
           \<and> last (deref h' nr ! k) = last (deref h rs ! k))
     \<and> (\<exists>v1 v2 i j. v1 < length rs \<and> v2 < length rs \<and> v1 \<noteq> v2
           \<and> 1 \<le> i \<and> i + 1 < length (deref h rs ! v1)
           \<and> 1 \<le> j \<and> j + 1 < length (deref h rs ! v2)
           \<and> (\<forall>k < length rs. k \<noteq> v1 \<and> k \<noteq> v2 \<longrightarrow> deref h' nr ! k = deref h rs ! k)
           \<and> (\<forall>n. n \<noteq> i \<longrightarrow> deref h' nr ! v1 ! n = deref h rs ! v1 ! n)
           \<and> (\<forall>n. n \<noteq> j \<longrightarrow> deref h' nr ! v2 ! n = deref h rs ! v2 ! n)
           \<and> deref h' nr ! v1 ! i = deref h rs ! v2 ! j
           \<and> deref h' nr ! v2 ! j = deref h rs ! v1 ! i)"
      by (rule generate_new_solution_st_frame [OF wf interior])
  qed
qed

lemma example_store_move:
  "generate_new_solution_st [[0, 3, 4], [0, 2, 1, 4]] [0, 1] (\<lambda>_. 0) =
     Inr ([2, 3], [[0, 3, 4], [0, 2, 1, 4], [0, 2, 4], [0, 3, 1, 4]], \<lambda>_. 0)"
  by (simp add: generate_new_solution_st_def random_sample2_def random_randint_def
      rng_next_def Let_def)

theorem depot_preservation_witness:
  "generate_new_solution_st [[0, 3, 4], [0, 2, 1, 4]] [0, 1] (\<lambda>_. 0) =
     Inr ([2, 3], [[0, 3, 4], [0, 2, 1, 4], [0, 2, 4], [0, 3, 1, 4]], \<lambda>_. 0)
   \<and> deref [[0, 3, 4], [0, 2, 1, 4], [0, 2, 4], [0, 3, 1, 4]] [0, 1] =
       deref [[0, 3, 4], [0, 2, 1, 4]] [0, 1]
   \<and> deref [[0, 3, 4], [0, 2, 1, 4], [0, 2, 4], [0, 3, 1, 4]] [2, 3] = [[0, 2, 4], [0, 3, 1, 4]]
   \<and> length (deref [[0, 3, 4], [0, 2, 1, 4], [0, 2, 4], [0, 3, 1, 4]] [2, 3]) =
       length (deref [[0, 3, 4], [0, 2, 1, 4]] [0, 1])"
proof -
  define h0 :: store where "h0 = [[0, 3, 4], [0, 2, 1, 4]]"
  define h1 :: store where "h1 = [[0, 3, 4], [0, 2, 1, 4], [0, 2, 4], [0, 3, 1, 4]]"
  have wf: "\<forall>p \<in> set [0, 1]. p < length h0"
    and interior: "\<forall>p \<in> set [0, 1]. 3 \<le> length (h0 ! p)"
    by (simp_all add: h0_def)
  have run: "generate_new_solution_st h0 [0, 1] (\<lambda>_. 0) = Inr ([2, 3], h1, \<lambda>_. 0)"
    using example_store_move by (simp add: h0_def h1_def)
  from depot_preservation [OF wf interior, of "\<lambda>_. 0"]
  have "\<forall>nr h' g'. generate_new_solution_st h0 [0, 1] (\<lambda>_. 0) = Inr (nr, h', g') \<longrightarrow>
      deref h' [0, 1] = deref h0 [0, 1] \<and> length (deref h' nr) = length (deref h0 [0, 1])"
    by blast
  with run have "deref h1 [0, 1] = deref h0 [0, 1]
      \<and> length (deref h1 [2, 3]) = length (deref h0 [0, 1])"
    by blast
  moreover have "deref h1 [2, 3] = [[0, 2, 4], [0, 3, 1, 4]]"
    by (simp add: deref_def h1_def)
  ultimately show ?thesis using run by (simp add: h0_def h1_def)
qed

end
